theory Spec2Isabelle
  imports Complex_Main
begin

section \<open>The job table of the batch worker (processor.py)\<close>

text \<open>
  The worker talks to one SQLite table, \<^verbatim>\<open>audio_entries\<close>. A row carries the columns
  the statements of processor.py read or write. The status column holds one of the four
  string literals \<^verbatim>\<open>'pending'\<close>, \<^verbatim>\<open>'processing'\<close>, \<^verbatim>\<open>'success'\<close>, \<^verbatim>\<open>'error'\<close>.
  Timestamps (\<^verbatim>\<open>datetime('now')\<close>) are natural numbers; a column that is still NULL
  is \<open>None\<close>.
\<close>

datatype status = Pending | Processing | Success | Error

record audio_entry =
  entry_id :: nat
  entry_text :: string
  status :: status
  created_at :: nat
  started_at :: "nat option"
  completed_at :: "nat option"
  audio_path :: "string option"
  duration_ms :: "int option"
  error_message :: "string option"

text \<open>
  The table is the list of its rows, in the order in which the engine reads them.
\<close>

type_synonym store = "audio_entry list"


subsection \<open>claim\_pending\_entry\<close>

text \<open>
  \<^verbatim>\<open>SELECT id, text FROM audio_entries WHERE status = 'pending'
  ORDER BY created_at ASC LIMIT 1\<close>, then \<^verbatim>\<open>fetchone()\<close>: the pending rows, sorted by
  \<^verbatim>\<open>created_at\<close>, first row or nothing. The sorter of the engine keeps rows with equal
  \<^verbatim>\<open>created_at\<close> in the order in which it read them, as \<open>sort_key\<close> does.
\<close>

definition select_oldest_pending :: "store \<Rightarrow> audio_entry option" where
  "select_oldest_pending s =
     (case sort_key created_at (filter (\<lambda>r. status r = Pending) s) of
        [] \<Rightarrow> None
      | r # _ \<Rightarrow> Some r)"

text \<open>
  \<^verbatim>\<open>UPDATE audio_entries SET status = 'processing', started_at = datetime('now')
  WHERE id = ? AND status = 'pending'\<close>: the new table and \<^verbatim>\<open>cursor.rowcount\<close>.
\<close>

definition claim_matches :: "nat \<Rightarrow> audio_entry \<Rightarrow> bool" where
  "claim_matches eid r = (entry_id r = eid \<and> status r = Pending)"

definition update_claim :: "store \<Rightarrow> nat \<Rightarrow> nat \<Rightarrow> store \<times> nat" where
  "update_claim s eid now =
     (map (\<lambda>r. if claim_matches eid r
                then r\<lparr>status := Processing, started_at := Some now\<rparr> else r) s,
      length (filter (claim_matches eid) s))"

text \<open>
  The function itself, run without another connection writing in between. It returns the
  dictionary \<^verbatim>\<open>{'id': ..., 'text': ...}\<close> as a pair, or \<open>None\<close>.
\<close>

definition claim_pending_entry :: "store \<Rightarrow> nat \<Rightarrow> store \<times> (nat \<times> string) option" where
  "claim_pending_entry s now =
     (case select_oldest_pending s of
        None \<Rightarrow> (s, None)
      | Some row \<Rightarrow>
          (case update_claim s (entry_id row) now of
             (s', rowcount) \<Rightarrow>
               if rowcount = 0 then (s', None)
               else (s', Some (entry_id row, entry_text row))))"

subsection \<open>mark\_success and mark\_error\<close>

text \<open>
  \<^verbatim>\<open>UPDATE audio_entries SET status = 'success', audio_path = ?, duration_ms = ?,
  completed_at = datetime('now') WHERE id = ?\<close>
\<close>

definition mark_success :: "store \<Rightarrow> nat \<Rightarrow> string \<Rightarrow> int \<Rightarrow> nat \<Rightarrow> store" where
  "mark_success s eid path dur now =
     map (\<lambda>r. if entry_id r = eid
               then r\<lparr>status := Success, audio_path := Some path,
                      duration_ms := Some dur, completed_at := Some now\<rparr>
               else r) s"

text \<open>
  \<^verbatim>\<open>UPDATE audio_entries SET status = 'error', error_message = ?,
  completed_at = datetime('now') WHERE id = ?\<close> with the message \<^verbatim>\<open>str(error_message)[:500]\<close>.
\<close>

definition mark_error :: "store \<Rightarrow> nat \<Rightarrow> string \<Rightarrow> nat \<Rightarrow> store" where
  "mark_error s eid msg now =
     map (\<lambda>r. if entry_id r = eid
               then r\<lparr>status := Error, error_message := Some (take 500 msg),
                      completed_at := Some now\<rparr>
               else r) s"

text \<open>The three operations of the worker on the table, and a sequence of them.\<close>

datatype store_op =
    Claim nat
  | MarkSuccess nat string int nat
  | MarkError nat string nat

fun apply_store_op :: "store_op \<Rightarrow> store \<Rightarrow> store" where
  "apply_store_op (Claim now) s = fst (claim_pending_entry s now)"
| "apply_store_op (MarkSuccess eid path dur now) s = mark_success s eid path dur now"
| "apply_store_op (MarkError eid msg now) s = mark_error s eid msg now"

fun apply_store_ops :: "store_op list \<Rightarrow> store \<Rightarrow> store" where
  "apply_store_ops [] s = s"
| "apply_store_ops (op # ops) s = apply_store_ops ops (apply_store_op op s)"

text \<open>The position of a status on the path pending, processing, finished.\<close>

fun status_rank :: "status \<Rightarrow> nat" where
  "status_rank Pending = 0"
| "status_rank Processing = 1"
| "status_rank Success = 2"
| "status_rank Error = 2"

subsection \<open>Example tables\<close>

definition example_job :: audio_entry where
  "example_job = \<lparr>entry_id = 7, entry_text = ''Hello'', status = Pending, created_at = 5,
     started_at = None, completed_at = None, audio_path = None, duration_ms = None,
     error_message = None\<rparr>"

definition finished_job :: audio_entry where
  "finished_job = \<lparr>entry_id = 3, entry_text = ''Cake'', status = Error, created_at = 2,
     started_at = Some 3, completed_at = Some 4, audio_path = None, duration_ms = None,
     error_message = Some ''boom''\<rparr>"

definition example_store :: store where
  "example_store = [finished_job, example_job]"


section \<open>Exceptions\<close>

text \<open>
  A raised exception is a value: its class and the text \<^verbatim>\<open>str(e)\<close>. Only the classes the
  handlers of the code tell apart are named; \<open>OtherError\<close> stands for every other class
  derived from \<^verbatim>\<open>Exception\<close> (\<^verbatim>\<open>sqlite3.OperationalError\<close>, \<^verbatim>\<open>OSError\<close>, \<^verbatim>\<open>RuntimeError\<close>, ...).
  \<^verbatim>\<open>KeyboardInterrupt\<close>, \<^verbatim>\<open>asyncio.CancelledError\<close> and \<^verbatim>\<open>SystemExit\<close> derive from
  \<^verbatim>\<open>BaseException\<close> only, so \<^verbatim>\<open>except Exception\<close> does not catch them. The texts of the
  errors the interpreter itself raises are CPython's in spirit; no property depends on
  them.
\<close>

datatype exc_class =
    JSONDecodeError | KeyError | IndexError | TypeError | AttributeError | OtherError
  | KeyboardInterrupt | CancelledError | SystemExit

datatype exc = Exc exc_class string

fun exc_str :: "exc \<Rightarrow> string" where
  "exc_str (Exc c m) = m"

text \<open>\<^verbatim>\<open>isinstance(e, Exception)\<close>: what a clause \<^verbatim>\<open>except Exception\<close> catches.\<close>

fun is_Exception :: "exc \<Rightarrow> bool" where
  "is_Exception (Exc c m) = (c \<noteq> KeyboardInterrupt \<and> c \<noteq> CancelledError \<and> c \<noteq> SystemExit)"

fun is_KeyboardInterrupt :: "exc \<Rightarrow> bool" where
  "is_KeyboardInterrupt (Exc c m) = (c = KeyboardInterrupt)"

fun exc_class_of :: "exc \<Rightarrow> exc_class" where
  "exc_class_of (Exc c m) = c"

section \<open>Concurrent claims and the write lock\<close>

text \<open>
  Several workers run \<^verbatim>\<open>claim_pending_entry\<close> against the same table, each on its own
  connection. SQLite runs one statement at a time, so a run of N workers is an
  interleaving of their statements. The SELECT takes no write lock. Python's \<^verbatim>\<open>sqlite3\<close>
  opens a transaction before the UPDATE, and the transaction holds the write lock of the
  database until it is committed or the connection is closed. \<^verbatim>\<open>claim_pending_entry\<close>
  commits only after an UPDATE that changed a row (\<^verbatim>\<open>conn.commit()\<close> is its last statement
  but one); when \<^verbatim>\<open>cursor.rowcount == 0\<close> it returns before the commit, and \<^verbatim>\<open>main\<close> closes
  the connection only after \<^verbatim>\<open>time.sleep(POLL_INTERVAL)\<close>. An UPDATE issued while another
  connection holds the lock waits for it, and raises \<^verbatim>\<open>sqlite3.OperationalError\<close>
  (\<^verbatim>\<open>database is locked\<close>) once it has waited the busy timeout.

  \<^verbatim>\<open>POLL_INTERVAL = 2.0\<close> seconds and \<^verbatim>\<open>PRAGMA busy_timeout = 5000\<close>; all times of this section
  are in milliseconds.
\<close>

definition POLL_INTERVAL_ms :: nat where
  "POLL_INTERVAL_ms = 2000"

definition busy_timeout_ms :: nat where
  "busy_timeout_ms = 5000"

text \<open>
  The database the workers share: the table, and the write lock, which is free or held
  by a worker together with the earliest time at which that worker closes its connection.
\<close>

type_synonym db = "store \<times> (nat \<times> nat) option"

text \<open>
  Where a worker is in its attempt: before its SELECT, holding the row it fetched, waiting
  for the write lock since the time its UPDATE was issued, returned from
  \<^verbatim>\<open>claim_pending_entry\<close> with a value, or left it with an exception.
\<close>

datatype claim_pc =
    Start
  | Selected audio_entry
  | Waiting audio_entry nat
  | Returned "(nat \<times> string) option"
  | Raised exc

text \<open>The lock is held by the connection of another worker.\<close>

definition blocked :: "nat \<Rightarrow> (nat \<times> nat) option \<Rightarrow> bool" where
  "blocked w lock = (case lock of None \<Rightarrow> False | Some (v, t) \<Rightarrow> v \<noteq> w)"

text \<open>
  The UPDATE of worker \<open>w\<close> at time \<open>now\<close>, issued at time \<open>issued\<close>. Behind the lock of
  another worker it raises when the busy timeout has passed and goes on waiting
  otherwise. With the lock free it runs: when it changed no row the function returns
  \<open>None\<close> with the transaction open, so the worker holds the lock until it has slept the
  poll interval; when it changed a row the function commits, which frees the lock, and
  returns the entry.
\<close>

definition try_update :: "nat \<Rightarrow> nat \<Rightarrow> nat \<Rightarrow> audio_entry \<Rightarrow> db \<Rightarrow> db \<times> claim_pc" where
  "try_update w now issued row d =
     (if blocked w (snd d)
      then (if issued + busy_timeout_ms \<le> now
            then (d, Raised (Exc OtherError ''database is locked''))
            else (d, Waiting row issued))
      else (case update_claim (fst d) (entry_id row) now of
              (s', rowcount) \<Rightarrow>
                if rowcount = 0
                then ((s', Some (w, now + POLL_INTERVAL_ms)), Returned None)
                else ((s', None), Returned (Some (entry_id row, entry_text row)))))"

text \<open>
  The next step of worker \<open>w\<close> at time \<open>now\<close>. For a worker that has returned, the step is
  the \<^verbatim>\<open>conn.close()\<close> of \<^verbatim>\<open>main\<close>, which frees the lock when the worker holds it and its
  sleep is over.
\<close>

fun claim_step :: "nat \<Rightarrow> nat \<Rightarrow> db \<Rightarrow> claim_pc \<Rightarrow> db \<times> claim_pc" where
  "claim_step w now d Start =
     (case select_oldest_pending (fst d) of
        None \<Rightarrow> (d, Returned None)
      | Some row \<Rightarrow> (d, Selected row))"
| "claim_step w now d (Selected row) = try_update w now now row d"
| "claim_step w now d (Waiting row issued) = try_update w now issued row d"
| "claim_step w now d (Returned r) =
     (case snd d of
        None \<Rightarrow> (d, Returned r)
      | Some (v, closes) \<Rightarrow>
          if v = w \<and> closes \<le> now then ((fst d, None), Returned r) else (d, Returned r))"
| "claim_step w now d (Raised e) = (d, Raised e)"

text \<open>
  A schedule names, step by step, the worker that takes its next step and the time of
  the step. A step of a worker that does not exist changes nothing.
\<close>

fun run_claims :: "(nat \<times> nat) list \<Rightarrow> db \<times> claim_pc list \<Rightarrow> db \<times> claim_pc list" where
  "run_claims [] c = c"
| "run_claims ((w, now) # sched) (d, pcs) =
     (if w < length pcs
      then (case claim_step w now d (pcs ! w) of
              (d', pc') \<Rightarrow> run_claims sched (d', pcs[w := pc']))
      else run_claims sched (d, pcs))"

text \<open>
  What every schedule keeps true when the table starts with the one pending row \<open>j\<close> and
  the lock free: either the row is still pending, the lock is free and every worker is
  before its UPDATE, or no row is pending and exactly one worker has returned \<open>j\<close>.
\<close>

definition claim_inv :: "audio_entry \<Rightarrow> db \<times> claim_pc list \<Rightarrow> bool" where
  "claim_inv j c =
     (case c of (d, pcs) \<Rightarrow>
        (filter (\<lambda>r. status r = Pending) (fst d) = [j] \<and> snd d = None \<and>
           (\<forall>pc\<in>set pcs. pc = Start \<or> pc = Selected j))
      \<or> (filter (\<lambda>r. status r = Pending) (fst d) = [] \<and>
           (\<exists>w<length pcs. pcs ! w = Returned (Some (entry_id j, entry_text j)) \<and>
              (\<forall>v<length pcs. v \<noteq> w \<longrightarrow> (\<forall>x. pcs ! v \<noteq> Returned (Some x))))))"

text \<open>
  Six workers and four workers on one pending row. All fetch the row at time 0; worker 0
  updates first and commits; the others issue their UPDATE one millisecond later. Each
  loser in turn gets the lock, changes no row, and keeps the lock for the two seconds of
  its sleep; a worker still waiting after five seconds gives up.
\<close>

definition six_claimants :: "(nat \<times> nat) list" where
  "six_claimants =
     [(0, 0), (1, 0), (2, 0), (3, 0), (4, 0), (5, 0),
      (0, 0),
      (1, 1), (2, 1), (3, 1), (4, 1), (5, 1),
      (1, 2001), (2, 2001),
      (2, 4001), (3, 4001),
      (4, 5001), (5, 5001),
      (3, 6001)]"

definition four_claimants :: "(nat \<times> nat) list" where
  "four_claimants =
     [(0, 0), (1, 0), (2, 0), (3, 0),
      (0, 0),
      (1, 1), (2, 1), (3, 1),
      (1, 2001), (2, 2001),
      (2, 4001), (3, 4001),
      (3, 6001)]"

section \<open>The worker loop (processor.py, main)\<close>

text \<open>The decimal text of an id, as \<^verbatim>\<open>f"{entry_id}.wav"\<close> renders it.\<close>

fun str_nat :: "nat \<Rightarrow> string" where
  "str_nat n =
     (if n < 10 then [char_of (48 + n)]
      else str_nat (n div 10) @ [char_of (48 + n mod 10)])"

text \<open>
  What the world outside the loop does during one iteration: whether a database call
  raises (\<^verbatim>\<open>get_db_connection\<close>, the statements of \<^verbatim>\<open>claim_pending_entry\<close>, \<^verbatim>\<open>mark_success\<close>,
  \<^verbatim>\<open>mark_error\<close>, \<^verbatim>\<open>conn.close\<close>), what \<^verbatim>\<open>generate_tts\<close>, \<^verbatim>\<open>write_wav\<close> and
  \<^verbatim>\<open>get_audio_duration_ms\<close> give (the model files, the file system and the float
  arithmetic of the duration are outside the repository's logic), the two clock readings
  \<^verbatim>\<open>datetime('now')\<close>, and whether the operator interrupts a \<^verbatim>\<open>time.sleep\<close>. A database
  call that raises leaves the table as it was.
\<close>

record worker_env =
  connect_fault :: "exc option"
  claim_fault :: "exc option"
  claim_now :: nat
  tts_result :: "exc + int list"
  write_wav_fault :: "exc option"
  duration_result :: "exc + int"
  mark_success_fault :: "exc option"
  mark_error_fault :: "exc option"
  mark_now :: nat
  poll_sleep_interrupted :: bool
  close_fault :: "exc option"
  backoff_sleep_interrupted :: bool

text \<open>What an iteration does that is not a change of the table.\<close>

datatype worker_event =
    Tts_called string
  | Logged_error string
  | Slept

text \<open>
  \<^verbatim>\<open>process_entry(entry)\<close>: synthesise the text, write \<^verbatim>\<open><id>.wav\<close>, read its duration,
  return the relative path and the duration.
\<close>

definition process_entry :: "worker_env \<Rightarrow> nat \<times> string \<Rightarrow> worker_event list \<times> (exc + string \<times> int)" where
  "process_entry env entry =
     (case entry of (eid, tx) \<Rightarrow>
        ([Tts_called tx],
         (case tts_result env of
            Inl e \<Rightarrow> Inl e
          | Inr audio \<Rightarrow>
              (case write_wav_fault env of
                 Some e \<Rightarrow> Inl e
               | None \<Rightarrow>
                   (case duration_result env of
                      Inl e \<Rightarrow> Inl e
                    | Inr d \<Rightarrow> Inr (''audio/'' @ str_nat eid @ ''.wav'', d))))))"

text \<open>
  The inner \<^verbatim>\<open>try\<close> of the loop, for a claimed entry:
  \<^verbatim>\<open>try: audio_path, duration_ms = process_entry(entry); mark_success(...)
  except Exception as e: log.error(...); mark_error(conn, entry['id'], str(e))\<close>.
  An exception that is not an \<^verbatim>\<open>Exception\<close> passes through, and so does one raised by
  \<^verbatim>\<open>mark_error\<close> inside the handler.
\<close>

definition claimed_block ::
  "worker_env \<Rightarrow> store \<Rightarrow> nat \<times> string \<Rightarrow> store \<times> worker_event list \<times> exc option" where
  "claimed_block env s entry =
     (case process_entry env entry of
        (ev, r) \<Rightarrow>
          (let tried =
             (case r of
                Inl e \<Rightarrow> Inl e
              | Inr (path, d) \<Rightarrow>
                  (case mark_success_fault env of
                     Some e \<Rightarrow> Inl e
                   | None \<Rightarrow> Inr (mark_success s (fst entry) path d (mark_now env))))
           in case tried of
                Inr s' \<Rightarrow> (s', ev, None)
              | Inl e \<Rightarrow>
                  if is_Exception e
                  then (case mark_error_fault env of
                          Some e' \<Rightarrow> (s, ev @ [Logged_error (exc_str e)], Some e')
                        | None \<Rightarrow>
                            (mark_error s (fst entry) (exc_str e) (mark_now env),
                             ev @ [Logged_error (exc_str e)], None))
                  else (s, ev, Some e)))"

text \<open>
  The body of the outer \<^verbatim>\<open>try\<close>: connect, claim, then the inner \<^verbatim>\<open>try\<close> or the poll sleep,
  then \<^verbatim>\<open>conn.close()\<close>. The third component is the exception that leaves the body, if any.
\<close>

definition try_block :: "worker_env \<Rightarrow> store \<Rightarrow> store \<times> worker_event list \<times> exc option" where
  "try_block env s =
     (case connect_fault env of
        Some e \<Rightarrow> (s, [], Some e)
      | None \<Rightarrow>
          (case claim_fault env of
             Some e \<Rightarrow> (s, [], Some e)
           | None \<Rightarrow>
               (case claim_pending_entry s (claim_now env) of
                  (s1, entry) \<Rightarrow>
                    (case (case entry of
                             Some en \<Rightarrow> claimed_block env s1 en
                           | None \<Rightarrow>
                               if poll_sleep_interrupted env
                               then (s1, [], Some (Exc KeyboardInterrupt []))
                               else (s1, [Slept], None)) of
                       (s2, ev, Some e) \<Rightarrow> (s2, ev, Some e)
                     | (s2, ev, None) \<Rightarrow> (s2, ev, close_fault env)))))"

text \<open>
  One pass of \<^verbatim>\<open>while True\<close>. \<^verbatim>\<open>except KeyboardInterrupt: break\<close>;
  \<^verbatim>\<open>except Exception as e: log.error(...); time.sleep(POLL_INTERVAL)\<close>; anything else leaves
  \<^verbatim>\<open>main\<close>, and so does an interrupt of the sleep inside the handler.
\<close>

datatype loop_ctl = Next_iteration | Break | Escaped exc

definition iteration :: "worker_env \<Rightarrow> store \<Rightarrow> store \<times> worker_event list \<times> loop_ctl" where
  "iteration env s =
     (case try_block env s of
        (s', ev, None) \<Rightarrow> (s', ev, Next_iteration)
      | (s', ev, Some e) \<Rightarrow>
          if is_KeyboardInterrupt e then (s', ev, Break)
          else if is_Exception e
          then (if backoff_sleep_interrupted env
                then (s', ev @ [Logged_error (exc_str e)], Escaped (Exc KeyboardInterrupt []))
                else (s', ev @ [Logged_error (exc_str e), Slept], Next_iteration))
          else (s', ev, Escaped e))"

text \<open>
  The loop, run over the behaviour of the world in its first iterations. \<open>Running\<close>: the
  loop has done them all and goes on; \<open>Stopped\<close>: it left through \<^verbatim>\<open>break\<close>; \<open>Crashed\<close>: an
  exception left \<^verbatim>\<open>main\<close>.
\<close>

datatype loop_state = Running | Stopped | Crashed exc

fun main_loop :: "worker_env list \<Rightarrow> store \<Rightarrow> store \<times> worker_event list \<times> loop_state" where
  "main_loop [] s = (s, [], Running)"
| "main_loop (env # envs) s =
     (case iteration env s of
        (s', ev, Next_iteration) \<Rightarrow>
          (case main_loop envs s' of (s'', ev', st) \<Rightarrow> (s'', ev @ ev', st))
      | (s', ev, Break) \<Rightarrow> (s', ev, Stopped)
      | (s', ev, Escaped e) \<Rightarrow> (s', ev, Crashed e))"

text \<open>
  An iteration in which everything that goes wrong is a failure: every exception raised is
  an \<^verbatim>\<open>Exception\<close>, and nobody interrupts a sleep.
\<close>

definition failure :: "exc option \<Rightarrow> bool" where
  "failure f = (case f of None \<Rightarrow> True | Some e \<Rightarrow> is_Exception e)"

definition failure_result :: "exc + 'a \<Rightarrow> bool" where
  "failure_result r = (case r of Inl e \<Rightarrow> is_Exception e | Inr v \<Rightarrow> True)"

definition only_failures :: "worker_env \<Rightarrow> bool" where
  "only_failures env =
     (failure (connect_fault env) \<and> failure (claim_fault env) \<and>
      failure_result (tts_result env) \<and> failure (write_wav_fault env) \<and>
      failure_result (duration_result env) \<and> failure (mark_success_fault env) \<and>
      failure (mark_error_fault env) \<and> failure (close_fault env) \<and>
      \<not> poll_sleep_interrupted env \<and> \<not> backoff_sleep_interrupted env)"

subsection \<open>Example iterations\<close>

definition quiet_env :: worker_env where
  "quiet_env = \<lparr>connect_fault = None, claim_fault = None, claim_now = 10,
     tts_result = Inr [0, 12, -7], write_wav_fault = None, duration_result = Inr 1500,
     mark_success_fault = None, mark_error_fault = None, mark_now = 12,
     poll_sleep_interrupted = False, close_fault = None,
     backoff_sleep_interrupted = False\<rparr>"

definition tts_fails_env :: worker_env where
  "tts_fails_env = quiet_env\<lparr>tts_result := Inl (Exc OtherError ''model crashed'')\<rparr>"

definition db_down_env :: worker_env where
  "db_down_env = quiet_env\<lparr>connect_fault := Some (Exc OtherError ''database is locked'')\<rparr>"

section \<open>Python values\<close>

text \<open>
  The values \<^verbatim>\<open>json.loads\<close> produces, which the handlers pass around untyped. An object is
  its list of pairs, one per key. Strings are lists of characters, one \<open>char\<close> for one
  character of the Python string.
\<close>

datatype json =
    JNull
  | JBool bool
  | JNum rat
  | JStr string
  | JArr "json list"
  | JObj "(string \<times> json) list"

text \<open>The truth value Python gives a value in \<^verbatim>\<open>if not x\<close> and \<^verbatim>\<open>x or y\<close>.\<close>

fun truthy :: "json \<Rightarrow> bool" where
  "truthy JNull = False"
| "truthy (JBool b) = b"
| "truthy (JNum x) = (x \<noteq> 0)"
| "truthy (JStr s) = (s \<noteq> [])"
| "truthy (JArr xs) = (xs \<noteq> [])"
| "truthy (JObj kv) = (kv \<noteq> [])"

text \<open>\<^verbatim>\<open>data.get(key, default)\<close>; only a dict has the method.\<close>

fun dict_get :: "json \<Rightarrow> string \<Rightarrow> json \<Rightarrow> exc + json" where
  "dict_get (JObj kv) k dflt = Inr (case map_of kv k of Some v \<Rightarrow> v | None \<Rightarrow> dflt)"
| "dict_get v k dflt = Inl (Exc AttributeError ''object has no attribute get'')"

text \<open>\<^verbatim>\<open>data[key]\<close> with a string key: \<^verbatim>\<open>KeyError\<close> on a dict without it, \<^verbatim>\<open>TypeError\<close> on
  anything that is not a dict.\<close>

fun subscript :: "json \<Rightarrow> string \<Rightarrow> exc + json" where
  "subscript (JObj kv) k =
     (case map_of kv k of
        Some v \<Rightarrow> Inr v
      | None \<Rightarrow> Inl (Exc KeyError ([CHR 0x27] @ k @ [CHR 0x27])))"
| "subscript v k = Inl (Exc TypeError ''indices must be integers'')"

text \<open>
  The log lines slice what they print, \<^verbatim>\<open>prompt[:80]\<close> and \<^verbatim>\<open>text[:100]\<close>, and take its
  \<^verbatim>\<open>len\<close>: both work on a string or a list and raise on every other value.
\<close>

fun log_preview :: "json \<Rightarrow> exc + unit" where
  "log_preview (JStr s) = Inr ()"
| "log_preview (JArr xs) = Inr ()"
| "log_preview v = Inl (Exc TypeError ''object is not subscriptable'')"

text \<open>\<^verbatim>\<open>str.strip()\<close>: leading and trailing whitespace removed.\<close>

definition is_space :: "char \<Rightarrow> bool" where
  "is_space c = (of_char c \<in> {9, 10, 11, 12, 13, 28, 29, 30, 31, 32, 133, 160 :: nat})"

definition strip :: "string \<Rightarrow> string" where
  "strip s = rev (dropWhile is_space (rev (dropWhile is_space s)))"

text \<open>
  \<^verbatim>\<open>random.choice(xs)\<close>, with the number drawn as a parameter. It is only called on the two
  message pools below, which are not empty.
\<close>

definition random_choice :: "'a list \<Rightarrow> nat \<Rightarrow> 'a" where
  "random_choice xs r = xs ! (r mod length xs)"

section \<open>Constants of glados.py\<close>

definition GLADOS_SYSTEM_PROMPT :: string where
  "GLADOS_SYSTEM_PROMPT = ''You are GLaDOS from Portal. Respond in character: sardonic, passive-aggressive, darkly humorous. Keep responses brief (1-3 sentences). Never break character.''"

definition thinking_messages :: "string list" where
  "thinking_messages =
     [''Aperture Science Testing Protocol...'',
      ''Consulting the mainframe...'',
      ''Processing your insignificant query...'',
      ''Calculating optimal sarcasm levels...'']"

definition generating_messages :: "string list" where
  "generating_messages =
     [''Synthesizing vocal patterns...'',
      ''Warming up the neurotoxin-- voice module...'',
      ''Preparing test results...'',
      ''Generating audio for science...'',
      ''The cake is being prepared...'']"

section \<open>The session coordinator (server.py) and the AI responder (glados.py)\<close>

text \<open>The three JSON frames the server sends, and the phase each stands for.\<close>

datatype frame =
    Status_frame string string
  | Response_frame json json string rat
  | Error_frame string

fun frame_phase :: "frame \<Rightarrow> string" where
  "frame_phase (Status_frame phase msg) = phase"
| "frame_phase (Response_frame tx sid url dur) = ''response''"
| "frame_phase (Error_frame msg) = ''error''"

text \<open>
  What happens at one call of \<^verbatim>\<open>safe_send\<close>: \<^verbatim>\<open>ws.closed\<close> is true, or it is false and
  \<^verbatim>\<open>ws.send_json\<close> returns, or it is false and \<^verbatim>\<open>ws.send_json\<close> raises.
\<close>

datatype send_outcome = Conn_closed | Send_ok | Send_raises exc

text \<open>
  What the world outside the handler does while one inbound message is handled:
  \<^verbatim>\<open>json.loads\<close> (\<open>None\<close>: \<^verbatim>\<open>JSONDecodeError\<close>), the connection at the k-th call of
  \<^verbatim>\<open>safe_send\<close> for this message, the two random draws, \<^verbatim>\<open>subprocess.run\<close> (stdout and
  stderr of the \<^verbatim>\<open>claude\<close> process, or an exception), \<^verbatim>\<open>generate_tts\<close>, \<^verbatim>\<open>uuid4().hex\<close>,
  \<^verbatim>\<open>scipy.io.wavfile.write\<close> and \<^verbatim>\<open>wave.open\<close> (frames and frame rate).
\<close>

record server_env =
  json_loads :: "string \<Rightarrow> json option"
  ws_send :: "nat \<Rightarrow> send_outcome"
  thinking_pick :: nat
  generating_pick :: nat
  subprocess_run :: "json list \<Rightarrow> exc + string \<times> string"
  generate_tts :: "json \<Rightarrow> exc + int list"
  uuid_hex :: string
  write_fault :: "exc option"
  wave_read :: "exc + nat \<times> nat"

text \<open>
  The trace of one message: each read of \<^verbatim>\<open>ws.closed\<close> with its value, each call of
  \<^verbatim>\<open>ws.send_json\<close> (returned or raised), each call of a collaborator.
\<close>

datatype event =
    Closed_checked bool
  | Sent frame
  | Send_failed frame
  | Responder_invoked json json
  | Synthesizer_invoked json

type_synonym 'a io = "event list \<Rightarrow> event list \<times> (exc + 'a)"

text \<open>
  A step of the handler takes the trace so far and gives the longer trace and a value or
  an exception. \<open>io_bind\<close> is sequencing, \<open>io_catch\<close> is \<^verbatim>\<open>try ... except\<close>.
\<close>

definition io_return :: "'a \<Rightarrow> 'a io" where
  "io_return x tr = (tr, Inr x)"

definition io_raise :: "exc \<Rightarrow> 'a io" where
  "io_raise e tr = (tr, Inl e)"

definition io_lift :: "exc + 'a \<Rightarrow> 'a io" where
  "io_lift r tr = (tr, r)"

definition io_emit :: "event \<Rightarrow> unit io" where
  "io_emit ev tr = (tr @ [ev], Inr ())"

definition io_bind :: "'a io \<Rightarrow> ('a \<Rightarrow> 'b io) \<Rightarrow> 'b io" where
  "io_bind m f tr =
     (case m tr of
        (tr', Inl e) \<Rightarrow> (tr', Inl e)
      | (tr', Inr x) \<Rightarrow> f x tr')"

definition io_catch :: "'a io \<Rightarrow> (exc \<Rightarrow> 'a io) \<Rightarrow> 'a io" where
  "io_catch m h tr =
     (case m tr of
        (tr', Inl e) \<Rightarrow> h e tr'
      | (tr', Inr x) \<Rightarrow> (tr', Inr x))"

text \<open>
  \<^verbatim>\<open>safe_send(ws, data, client_id)\<close>: \<^verbatim>\<open>if ws.closed: return False\<close>, then
  \<^verbatim>\<open>try: await ws.send_json(data); return True; except Exception: return False\<close>. The
  number of earlier calls for this message is the number of reads of \<^verbatim>\<open>ws.closed\<close> in the
  trace.
\<close>

fun is_closed_check :: "event \<Rightarrow> bool" where
  "is_closed_check (Closed_checked b) = True"
| "is_closed_check ev = False"

definition safe_send :: "server_env \<Rightarrow> frame \<Rightarrow> bool io" where
  "safe_send env data tr =
     (case ws_send env (length (filter is_closed_check tr)) of
        Conn_closed \<Rightarrow> (tr @ [Closed_checked True], Inr False)
      | Send_ok \<Rightarrow> (tr @ [Closed_checked False, Sent data], Inr True)
      | Send_raises e \<Rightarrow>
          (tr @ [Closed_checked False, Send_failed data],
           if is_Exception e then Inr False else Inl e))"

text \<open>
  \<^verbatim>\<open>get_ai_response_with_session(prompt, session_id)\<close>. The \<^verbatim>\<open>try\<close> block:
  \<^verbatim>\<open>data = json.loads(result.stdout); text = data['result'];
  new_session_id = data['session_id']\<close>.
\<close>

definition parse_reply :: "server_env \<Rightarrow> string \<Rightarrow> exc + json \<times> json" where
  "parse_reply env stdout =
     (case json_loads env stdout of
        None \<Rightarrow> Inl (Exc JSONDecodeError ''Expecting value'')
      | Some data \<Rightarrow>
          (case subscript data ''result'' of
             Inl e \<Rightarrow> Inl e
           | Inr tx \<Rightarrow>
               (case subscript data ''session_id'' of
                  Inl e \<Rightarrow> Inl e
                | Inr new_session_id \<Rightarrow> Inr (tx, new_session_id))))"

text \<open>The command line, with \<^verbatim>\<open>--resume session_id\<close> when a session id is given.\<close>

definition responder_cmd :: "json \<Rightarrow> json \<Rightarrow> json list" where
  "responder_cmd prompt session_id =
     [JStr ''claude'', JStr ''-p'', prompt,
      JStr ''--system-prompt'', JStr GLADOS_SYSTEM_PROMPT,
      JStr ''--allowedTools'', JStr ''WebSearch'', JStr ''WebFetch'',
      JStr ''--output-format'', JStr ''json''] @
     (if truthy session_id then [JStr ''--resume'', session_id] else [])"

text \<open>
  \<^verbatim>\<open>except (json.JSONDecodeError, KeyError, IndexError):
  return result.stdout.strip() or f"Error: {result.stderr}", None\<close>. An exception of
  \<^verbatim>\<open>subprocess.run\<close>, or of another class in the \<^verbatim>\<open>try\<close> block, leaves the function.
\<close>

definition get_ai_response_with_session ::
  "server_env \<Rightarrow> json \<Rightarrow> json \<Rightarrow> exc + json \<times> json" where
  "get_ai_response_with_session env prompt session_id =
     (case subprocess_run env (responder_cmd prompt session_id) of
        Inl e \<Rightarrow> Inl e
      | Inr (stdout, stderr) \<Rightarrow>
          (case parse_reply env stdout of
             Inr r \<Rightarrow> Inr r
           | Inl e \<Rightarrow>
               if exc_class_of e = JSONDecodeError \<or> exc_class_of e = KeyError \<or>
                  exc_class_of e = IndexError
               then Inr (JStr (if strip stdout \<noteq> [] then strip stdout
                               else ''Error: '' @ stderr), JNull)
               else Inl e))"

text \<open>\<^verbatim>\<open>duration = wf.getnframes() / wf.getframerate()\<close>, as an exact quotient.\<close>

definition audio_duration :: "server_env \<Rightarrow> exc + rat" where
  "audio_duration env =
     (case wave_read env of
        Inl e \<Rightarrow> Inl e
      | Inr (nframes, framerate) \<Rightarrow>
          if framerate = 0 then Inl (Exc OtherError ''division by zero'')
          else Inr (of_nat nframes / of_nat framerate))"

text \<open>
  The handler of a text message, from its end to its start. After the generating frame:
  synthesise, write the file, read the duration, send the response frame.
\<close>

definition phase_complete :: "server_env \<Rightarrow> json \<Rightarrow> json \<Rightarrow> unit io" where
  "phase_complete env tx new_session_id =
     io_bind (io_emit (Synthesizer_invoked tx)) (\<lambda>_.
     io_bind (io_lift (generate_tts env tx)) (\<lambda>audio.
     io_bind (io_lift (case write_fault env of Some e \<Rightarrow> Inl e | None \<Rightarrow> Inr ())) (\<lambda>_.
     io_bind (io_lift (audio_duration env)) (\<lambda>duration.
     io_bind (safe_send env
                (Response_frame tx new_session_id
                   (''/audio/output_'' @ take 8 (uuid_hex env) @ ''.wav'') duration)) (\<lambda>_.
     io_return ())))))"

text \<open>
  After the responder has returned: the log line, \<^verbatim>\<open>if not text\<close> with its error frame
  and \<^verbatim>\<open>continue\<close>, the generating frame (\<^verbatim>\<open>continue\<close> when it is not sent).
\<close>

definition phase_generating :: "server_env \<Rightarrow> json \<Rightarrow> json \<Rightarrow> unit io" where
  "phase_generating env tx new_session_id =
     io_bind (io_lift (log_preview tx)) (\<lambda>_.
     if \<not> truthy tx
     then io_bind (safe_send env (Error_frame ''Failed to get AI response'')) (\<lambda>_. io_return ())
     else
       io_bind (safe_send env
                  (Status_frame ''generating''
                     (random_choice generating_messages (generating_pick env)))) (\<lambda>sent.
       if \<not> sent then io_return ()
       else phase_complete env tx new_session_id))"

text \<open>The thinking frame (\<^verbatim>\<open>continue\<close> when it is not sent), then the responder.\<close>

definition phase_thinking :: "server_env \<Rightarrow> json \<Rightarrow> json \<Rightarrow> unit io" where
  "phase_thinking env prompt session_id =
     io_bind (safe_send env
                (Status_frame ''thinking''
                   (random_choice thinking_messages (thinking_pick env)))) (\<lambda>sent.
     if \<not> sent then io_return ()
     else
       io_bind (io_emit (Responder_invoked prompt session_id)) (\<lambda>_.
       io_bind (io_lift (get_ai_response_with_session env prompt session_id)) (\<lambda>reply.
       phase_generating env (fst reply) (snd reply))))"

text \<open>
  The body of the \<^verbatim>\<open>try\<close>: parse, \<^verbatim>\<open>data.get('prompt', '')\<close>, \<^verbatim>\<open>data.get('session_id')\<close>,
  \<^verbatim>\<open>if not prompt\<close> with its error frame and \<^verbatim>\<open>continue\<close>, the log line, the phases.
\<close>

definition request_body :: "server_env \<Rightarrow> string \<Rightarrow> unit io" where
  "request_body env msg_data =
     io_bind (io_lift (case json_loads env msg_data of
                         None \<Rightarrow> Inl (Exc JSONDecodeError ''Expecting value'')
                       | Some data \<Rightarrow> Inr data)) (\<lambda>data.
     io_bind (io_lift (dict_get data ''prompt'' (JStr ''''))) (\<lambda>prompt.
     io_bind (io_lift (dict_get data ''session_id'' JNull)) (\<lambda>session_id.
     if \<not> truthy prompt
     then io_bind (safe_send env (Error_frame ''No prompt provided'')) (\<lambda>_. io_return ())
     else
       io_bind (io_lift (log_preview prompt)) (\<lambda>_.
       phase_thinking env prompt session_id))))"

text \<open>
  The \<^verbatim>\<open>try\<close> with its two handlers: \<^verbatim>\<open>except json.JSONDecodeError\<close> sends
  \<^verbatim>\<open>'Invalid JSON'\<close>, \<^verbatim>\<open>except Exception as e\<close> sends \<^verbatim>\<open>str(e)\<close>; both in error frames.
\<close>

definition handle_text :: "server_env \<Rightarrow> string \<Rightarrow> unit io" where
  "handle_text env msg_data =
     io_catch (request_body env msg_data) (\<lambda>e.
       if exc_class_of e = JSONDecodeError
       then io_bind (safe_send env (Error_frame ''Invalid JSON'')) (\<lambda>_. io_return ())
       else if is_Exception e
       then io_bind (safe_send env (Error_frame (exc_str e))) (\<lambda>_. io_return ())
       else io_raise e)"

text \<open>
  \<^verbatim>\<open>async for msg in ws\<close>, over the messages of a connection, each with the behaviour of
  the world while it is handled. Only text messages are handled. An exception that leaves
  the loop ends the handler: \<^verbatim>\<open>CancelledError\<close> and \<^verbatim>\<open>Exception\<close> are logged, anything else
  is raised to the caller (\<open>Some\<close>).
\<close>

datatype ws_msg = Text string | Error_msg | Other_msg

fun websocket_handler :: "(server_env \<times> ws_msg) list \<Rightarrow> event list \<times> exc option" where
  "websocket_handler [] = ([], None)"
| "websocket_handler ((env, Text msg_data) # rest) =
     (case handle_text env msg_data [] of
        (ev, Inr u) \<Rightarrow>
          (case websocket_handler rest of (ev', r) \<Rightarrow> (ev @ ev', r))
      | (ev, Inl e) \<Rightarrow>
          if exc_class_of e = CancelledError \<or> is_Exception e then (ev, None)
          else (ev, Some e))"
| "websocket_handler ((env, other) # rest) = websocket_handler rest"

text \<open>The frames a trace delivered, and the collaborator calls in it.\<close>

fun sent_frames :: "event list \<Rightarrow> frame list" where
  "sent_frames [] = []"
| "sent_frames (Sent f # evs) = f # sent_frames evs"
| "sent_frames (ev # evs) = sent_frames evs"

fun collaborator_calls :: "event list \<Rightarrow> event list" where
  "collaborator_calls [] = []"
| "collaborator_calls (Responder_invoked p s # evs) = Responder_invoked p s # collaborator_calls evs"
| "collaborator_calls (Synthesizer_invoked t # evs) = Synthesizer_invoked t # collaborator_calls evs"
| "collaborator_calls (ev # evs) = collaborator_calls evs"

text \<open>
  A trace is guarded when every call of \<^verbatim>\<open>ws.send_json\<close> in it comes directly after a read
  of \<^verbatim>\<open>ws.closed\<close> that gave false.
\<close>

fun is_send :: "event \<Rightarrow> bool" where
  "is_send (Sent f) = True"
| "is_send (Send_failed f) = True"
| "is_send ev = False"

fun guarded_after :: "bool \<Rightarrow> event list \<Rightarrow> bool" where
  "guarded_after checked [] = True"
| "guarded_after checked (ev # evs) =
     ((\<not> is_send ev \<or> checked) \<and> guarded_after (ev = Closed_checked False) evs)"

definition guarded :: "event list \<Rightarrow> bool" where
  "guarded evs = guarded_after False evs"

text \<open>
  A piece of trace that keeps a guarded trace guarded when appended, and a step that only
  appends such pieces.
\<close>

definition well_guarded :: "event list \<Rightarrow> bool" where
  "well_guarded ext = (guarded ext \<and> (case ext of [] \<Rightarrow> True | ev # evs \<Rightarrow> \<not> is_send ev))"

definition extends_guarded :: "'a io \<Rightarrow> bool" where
  "extends_guarded m = (\<forall>tr. \<exists>ext. fst (m tr) = tr @ ext \<and> well_guarded ext)"

text \<open>
  What \<^verbatim>\<open>data.get('prompt', '')\<close> and \<^verbatim>\<open>data.get('session_id')\<close> give on a dict, and the three
  frames of a request as the handler builds them.
\<close>

definition prompt_of :: "(string \<times> json) list \<Rightarrow> json" where
  "prompt_of kv = (case map_of kv ''prompt'' of Some v \<Rightarrow> v | None \<Rightarrow> JStr [])"

definition session_of :: "(string \<times> json) list \<Rightarrow> json" where
  "session_of kv = (case map_of kv ''session_id'' of Some v \<Rightarrow> v | None \<Rightarrow> JNull)"

definition thinking_frame :: "server_env \<Rightarrow> frame" where
  "thinking_frame env =
     Status_frame ''thinking'' (random_choice thinking_messages (thinking_pick env))"

definition generating_frame :: "server_env \<Rightarrow> frame" where
  "generating_frame env =
     Status_frame ''generating'' (random_choice generating_messages (generating_pick env))"

definition response_frame :: "server_env \<Rightarrow> json \<Rightarrow> json \<Rightarrow> rat \<Rightarrow> frame" where
  "response_frame env tx sid duration =
     Response_frame tx sid (''/audio/output_'' @ take 8 (uuid_hex env) @ ''.wav'') duration"

subsection \<open>Example messages and connections\<close>

text \<open>A text in double quotes, to write JSON texts with.\<close>

definition dq :: "string \<Rightarrow> string" where
  "dq s = CHR 0x22 # s @ [CHR 0x22]"

definition prompt_msg :: string where
  "prompt_msg = ''{'' @ dq ''prompt'' @ '': '' @ dq ''hi'' @ ''}''"

definition empty_prompt_msg :: string where
  "empty_prompt_msg = ''{'' @ dq ''prompt'' @ '': '' @ dq [] @ ''}''"

definition reply_stdout :: string where
  "reply_stdout = ''{'' @ dq ''result'' @ '': '' @ dq ''Oh. It is you.'' @ '', '' @
                  dq ''session_id'' @ '': '' @ dq ''s1'' @ ''}''"

definition empty_reply_stdout :: string where
  "empty_reply_stdout = ''{'' @ dq ''result'' @ '': '' @ dq [] @ '', '' @
                        dq ''session_id'' @ '': '' @ dq ''s1'' @ ''}''"

definition example_loads :: "string \<Rightarrow> json option" where
  "example_loads s =
     (if s = prompt_msg then Some (JObj [(''prompt'', JStr ''hi'')])
      else if s = empty_prompt_msg then Some (JObj [(''prompt'', JStr [])])
      else if s = reply_stdout
      then Some (JObj [(''result'', JStr ''Oh. It is you.''), (''session_id'', JStr ''s1'')])
      else if s = empty_reply_stdout
      then Some (JObj [(''result'', JStr []), (''session_id'', JStr ''s1'')])
      else if s = ''[]'' then Some (JArr [])
      else None)"

definition example_env :: server_env where
  "example_env =
     \<lparr>json_loads = example_loads, ws_send = (\<lambda>k. Send_ok), thinking_pick = 1,
      generating_pick = 7, subprocess_run = (\<lambda>cmd. Inr (reply_stdout, [])),
      generate_tts = (\<lambda>tx. Inr [0, 5, -3]), uuid_hex = ''0123456789abcdef0123456789abcdef'',
      write_fault = None, wave_read = Inr (44100, 22050)\<rparr>"

definition empty_reply_env :: server_env where
  "empty_reply_env = example_env\<lparr>subprocess_run := (\<lambda>cmd. Inr (empty_reply_stdout, []))\<rparr>"

definition blank_output_env :: server_env where
  "blank_output_env = example_env\<lparr>subprocess_run := (\<lambda>cmd. Inr ('' '', ''usage limit''))\<rparr>"

definition array_output_env :: server_env where
  "array_output_env = example_env\<lparr>subprocess_run := (\<lambda>cmd. Inr (''[]'', []))\<rparr>"

definition closed_env :: server_env where
  "closed_env = example_env\<lparr>ws_send := (\<lambda>k. Conn_closed)\<rparr>"

section \<open>Properties of the job table\<close>

subsection \<open>Helper facts\<close>




lemma select_single: "filter (\<lambda>r. status r = Pending) s = [j] \<Longrightarrow> select_oldest_pending s = Some j"
  by (simp add: select_oldest_pending_def)

lemma select_none: "filter (\<lambda>r. status r = Pending) s = [] \<Longrightarrow> select_oldest_pending s = None"
  by (simp add: select_oldest_pending_def)

lemma claim_matches_filter:
  "filter (claim_matches eid) s = filter (\<lambda>r. entry_id r = eid) (filter (\<lambda>r. status r = Pending) s)"
  by (auto simp: claim_matches_def intro: filter_cong)

lemma update_claim_none:
  assumes "filter (\<lambda>r. status r = Pending) s = []"
  shows "update_claim s eid now = (s, 0)"
proof -
  have "\<forall>r\<in>set s. \<not> claim_matches eid r"
    using assms by (auto simp: claim_matches_def filter_empty_conv)
  then have "map (\<lambda>r. if claim_matches eid r
                then r\<lparr>status := Processing, started_at := Some now\<rparr> else r) s = s"
    by (simp add: map_idI)
  then show ?thesis using assms by (simp add: update_claim_def claim_matches_filter)
qed

lemma update_claim_single:
  assumes "filter (\<lambda>r. status r = Pending) s = [j]"
  shows "snd (update_claim s (entry_id j) now) = 1"
    and "filter (\<lambda>r. status r = Pending) (fst (update_claim s (entry_id j) now)) = []"
proof -
  show "snd (update_claim s (entry_id j) now) = 1"
    using assms by (simp add: update_claim_def claim_matches_filter)
  have "\<forall>r\<in>set s. status r = Pending \<longrightarrow> r = j"
  proof (intro ballI impI)
    fix r assume "r \<in> set s" "status r = Pending"
    then have "r \<in> set (filter (\<lambda>r. status r = Pending) s)" by simp
    then show "r = j" using assms by simp
  qed
  then show "filter (\<lambda>r. status r = Pending) (fst (update_claim s (entry_id j) now)) = []"
    by (auto simp: update_claim_def filter_empty_conv claim_matches_def)
qed




lemma status_rank_le_2: "status_rank st \<le> 2"
  by (cases st) simp_all

lemma store_op_rank:
  "length (apply_store_op op s) = length s \<and>
   (\<forall>i<length s. entry_id (apply_store_op op s ! i) = entry_id (s ! i) \<and>
      status_rank (status (s ! i)) \<le> status_rank (status (apply_store_op op s ! i)))"
proof (cases op)
  case (Claim now)
  then show ?thesis
    by (auto simp: claim_pending_entry_def update_claim_def claim_matches_def
             split: option.splits)
next
  case (MarkSuccess eid path dur now)
  then show ?thesis
    by (auto simp: mark_success_def status_rank_le_2)
next
  case (MarkError eid msg now)
  then show ?thesis
    by (auto simp: mark_error_def status_rank_le_2)
qed

lemma store_ops_rank:
  "length (apply_store_ops ops s) = length s \<and>
   (\<forall>i<length s. entry_id (apply_store_ops ops s ! i) = entry_id (s ! i) \<and>
      status_rank (status (s ! i)) \<le> status_rank (status (apply_store_ops ops s ! i)))"
proof (induction ops arbitrary: s)
  case Nil
  then show ?case by simp
next
  case (Cons op ops)
  have one: "length (apply_store_op op s) = length s"
    and step: "\<forall>i<length s. entry_id (apply_store_op op s ! i) = entry_id (s ! i) \<and>
      status_rank (status (s ! i)) \<le> status_rank (status (apply_store_op op s ! i))"
    using store_op_rank [of op s] by simp_all
  note ih = Cons.IH [of "apply_store_op op s"]
  show ?case
  proof (intro conjI allI impI)
    show "length (apply_store_ops (op # ops) s) = length s"
      using ih one by simp
  next
    fix i assume i: "i < length s"
    then show "entry_id (apply_store_ops (op # ops) s ! i) = entry_id (s ! i)"
      using ih one step by simp
  next
    fix i assume i: "i < length s"
    have "status_rank (status (s ! i)) \<le> status_rank (status (apply_store_op op s ! i))"
      using step i by simp
    also have "\<dots> \<le> status_rank (status (apply_store_ops ops (apply_store_op op s) ! i))"
      using ih one i by simp
    finally show "status_rank (status (s ! i))
        \<le> status_rank (status (apply_store_ops (op # ops) s ! i))"
      by simp
  qed
qed

lemma try_update_untaken:
  assumes "filter (\<lambda>r. status r = Pending) s = [j]"
  shows "\<exists>s'. try_update w now issued j (s, None) =
                 ((s', None), Returned (Some (entry_id j, entry_text j))) \<and>
              filter (\<lambda>r. status r = Pending) s' = []"
proof -
  obtain s1 n1 where u: "update_claim s (entry_id j) now = (s1, n1)"
    by (cases "update_claim s (entry_id j) now")
  have "n1 = 1" and "filter (\<lambda>r. status r = Pending) s1 = []"
    using update_claim_single [OF assms, of now] u by simp_all
  then show ?thesis
    using u by (simp add: try_update_def blocked_def)
qed

lemma try_update_taken:
  assumes "filter (\<lambda>r. status r = Pending) (fst d) = []"
    and "try_update w now issued row d = (d', pc')"
  shows "fst d' = fst d \<and> (\<forall>x. pc' \<noteq> Returned (Some x))"
  using assms update_claim_none [OF assms(1), of "entry_id row" now]
  by (auto simp: try_update_def split: if_splits)

lemma claim_step_taken:
  assumes "filter (\<lambda>r. status r = Pending) (fst d) = []"
    and "\<forall>x. pc \<noteq> Returned (Some x)"
    and "claim_step w now d pc = (d', pc')"
  shows "fst d' = fst d \<and> (\<forall>x. pc' \<noteq> Returned (Some x))"
proof (cases pc)
  case Start
  then show ?thesis using assms select_none [OF assms(1)] by auto
next
  case (Selected row)
  then show ?thesis using assms try_update_taken [OF assms(1)] by simp
next
  case (Waiting row issued)
  then show ?thesis using assms try_update_taken [OF assms(1)] by simp
next
  case (Returned r)
  then show ?thesis using assms by (auto split: option.splits if_splits)
next
  case (Raised e)
  then show ?thesis using assms by auto
qed

lemma claim_step_winner:
  assumes "claim_step w now d (Returned r) = (d', pc')"
  shows "fst d' = fst d \<and> pc' = Returned r"
  using assms by (auto split: option.splits if_splits)

lemma claim_inv_step:
  assumes inv: "claim_inv j (d, pcs)" and w: "w < length pcs"
    and step: "claim_step w now d (pcs ! w) = (d', pc')"
  shows "claim_inv j (d', pcs[w := pc'])"
proof -
  let ?P = "\<lambda>r. status r = Pending"
  from inv consider
    (untaken) "filter ?P (fst d) = [j]" "snd d = None"
      "\<forall>pc\<in>set pcs. pc = Start \<or> pc = Selected j"
  | (taken) w0 where "filter ?P (fst d) = []" "w0 < length pcs"
      "pcs ! w0 = Returned (Some (entry_id j, entry_text j))"
      "\<forall>v<length pcs. v \<noteq> w0 \<longrightarrow> (\<forall>x. pcs ! v \<noteq> Returned (Some x))"
    unfolding claim_inv_def by auto
  then show ?thesis
  proof cases
    case untaken
    have d: "d = (fst d, None)" using untaken(2) by (cases d) simp
    have "pcs ! w = Start \<or> pcs ! w = Selected j"
      using untaken(3) w by simp
    then show ?thesis
    proof
      assume st: "pcs ! w = Start"
      then have "d' = d" "pc' = Selected j"
        using step select_single [OF untaken(1)] by auto
      moreover have "\<forall>pc\<in>set (pcs[w := Selected j]). pc = Start \<or> pc = Selected j"
        using untaken(3) set_update_subset_insert [of pcs w "Selected j"] by auto
      ultimately show ?thesis
        using untaken(1,2) by (simp add: claim_inv_def)
    next
      assume sel: "pcs ! w = Selected j"
      obtain s' where s': "try_update w now now j (fst d, None) =
            ((s', None), Returned (Some (entry_id j, entry_text j)))"
          "filter ?P s' = []"
        using try_update_untaken [OF untaken(1), of w now now] by blast
      have res: "d' = (s', None)" "pc' = Returned (Some (entry_id j, entry_text j))"
        using step sel s'(1) d by (metis claim_step.simps(2) prod.inject)+
      have others: "\<forall>v<length pcs. v \<noteq> w \<longrightarrow> (\<forall>x. pcs ! v \<noteq> Returned (Some x))"
        using untaken(3) by (metis claim_pc.distinct(5,11) nth_mem)
      have "w < length (pcs[w := pc']) \<and>
          pcs[w := pc'] ! w = Returned (Some (entry_id j, entry_text j)) \<and>
          (\<forall>v<length (pcs[w := pc']). v \<noteq> w \<longrightarrow>
             (\<forall>x. pcs[w := pc'] ! v \<noteq> Returned (Some x)))"
        using w res others by auto
      then show ?thesis
        unfolding claim_inv_def using s'(2) res(1) by auto
    qed
  next
    case taken
    show ?thesis
    proof (cases "w = w0")
      case True
      then have "fst d' = fst d" "pc' = pcs ! w"
        using step taken(3) claim_step_winner by metis+
      then have "pcs[w := pc'] = pcs" "filter ?P (fst d') = []"
        using taken(1) by simp_all
      then show ?thesis
        unfolding claim_inv_def using taken(2,3,4) by auto
    next
      case False
      then have "\<forall>x. pcs ! w \<noteq> Returned (Some x)"
        using taken(4) w by simp
      then have res: "fst d' = fst d" "\<forall>x. pc' \<noteq> Returned (Some x)"
        using claim_step_taken [OF taken(1) _ step] by simp_all
      have "w0 < length (pcs[w := pc']) \<and>
          pcs[w := pc'] ! w0 = Returned (Some (entry_id j, entry_text j)) \<and>
          (\<forall>v<length (pcs[w := pc']). v \<noteq> w0 \<longrightarrow>
             (\<forall>x. pcs[w := pc'] ! v \<noteq> Returned (Some x)))"
      proof (intro conjI allI impI)
        show "w0 < length (pcs[w := pc'])" using taken(2) by simp
        show "pcs[w := pc'] ! w0 = Returned (Some (entry_id j, entry_text j))"
          using taken(3) False by simp
        fix v x assume v: "v < length (pcs[w := pc'])" "v \<noteq> w0"
        show "pcs[w := pc'] ! v \<noteq> Returned (Some x)"
        proof (cases "v = w")
          case True
          then have "pcs[w := pc'] ! v = pc'" using v by simp
          then show ?thesis using res(2) by metis
        next
          case False
          then have "pcs[w := pc'] ! v = pcs ! v" "v < length pcs" using v by simp_all
          then show ?thesis using taken(4) v(2) by metis
        qed
      qed
      then show ?thesis
        unfolding claim_inv_def using taken(1) res(1) by auto
    qed
  qed
qed

lemma claim_inv_run:
  "claim_inv j (d, pcs) \<Longrightarrow> claim_inv j (run_claims sched (d, pcs))"
proof (induction sched arbitrary: d pcs)
  case Nil
  then show ?case by simp
next
  case (Cons a sched)
  obtain w now where a: "a = (w, now)" by (cases a)
  show ?case
  proof (cases "w < length pcs")
    case True
    obtain d' pc' where st: "claim_step w now d (pcs ! w) = (d', pc')"
      by (cases "claim_step w now d (pcs ! w)")
    have "claim_inv j (d', pcs[w := pc'])"
      using claim_inv_step [OF Cons.prems True st] .
    then show ?thesis
      using Cons.IH a True st by simp
  next
    case False
    then show ?thesis using Cons a by simp
  qed
qed

lemma run_claims_length:
  "length (snd (run_claims sched (d, pcs))) = length pcs"
proof (induction sched arbitrary: d pcs)
  case Nil
  then show ?case by simp
next
  case (Cons a sched)
  obtain w now where a: "a = (w, now)" by (cases a)
  show ?case
    using Cons.IH a by (auto split: prod.splits)
qed

lemma claim_race_at_most_one:
  assumes one: "filter (\<lambda>r. status r = Pending) s = [j]"
    and v: "v < n" and w: "w < n"
    and rv: "snd (run_claims sched ((s, None), replicate n Start)) ! v = Returned (Some x)"
    and rw: "snd (run_claims sched ((s, None), replicate n Start)) ! w = Returned (Some y)"
  shows "v = w \<and> x = (entry_id j, entry_text j)"
proof -
  let ?c = "run_claims sched ((s, None), replicate n Start)"
  obtain d' pcs where c: "?c = (d', pcs)" by (cases ?c)
  have len: "length pcs = n"
    using run_claims_length [of sched "(s, None)" "replicate n Start"] c by simp
  have "claim_inv j ((s, None), replicate n Start)"
    using one by (simp add: claim_inv_def)
  then have inv: "claim_inv j (d', pcs)"
    using claim_inv_run [of j "(s, None)" "replicate n Start" sched] c by simp
  from inv consider
    (untaken) "\<forall>pc\<in>set pcs. pc = Start \<or> pc = Selected j"
  | (taken) w0 where "w0 < length pcs"
      "pcs ! w0 = Returned (Some (entry_id j, entry_text j))"
      "\<forall>u<length pcs. u \<noteq> w0 \<longrightarrow> (\<forall>x. pcs ! u \<noteq> Returned (Some x))"
    unfolding claim_inv_def by auto
  then show ?thesis
  proof cases
    case untaken
    have "pcs ! v = Start \<or> pcs ! v = Selected j"
      using untaken len v by simp
    then show ?thesis using rv c by auto
  next
    case taken
    have pv: "pcs ! v = Returned (Some x)" and pw: "pcs ! w = Returned (Some y)"
      using rv rw c by simp_all
    have "v = w0" using taken(3) len v pv by metis
    moreover have "w = w0" using taken(3) len w pw by metis
    ultimately show ?thesis using taken(2) pv by simp
  qed
qed

lemma claim_step_twice:
  assumes "claim_step w now (s, None) Start = (d1, pc1)"
    and "claim_step w now d1 pc1 = (d2, pc2)"
  shows "fst d2 = fst (claim_pending_entry s now) \<and>
         pc2 = Returned (snd (claim_pending_entry s now))"
  using assms
  by (auto simp: claim_pending_entry_def try_update_def blocked_def
        split: option.splits prod.splits if_splits)

lemma six_claimants_run:
  "snd (run_claims six_claimants ((example_store, None), replicate 6 Start)) =
     [Returned (Some (7, ''Hello'')), Returned None, Returned None, Returned None,
      Raised (Exc OtherError ''database is locked''),
      Raised (Exc OtherError ''database is locked'')]"
  by code_simp

lemma four_claimants_all_return:
  "snd (run_claims four_claimants ((example_store, None), replicate 4 Start)) =
     [Returned (Some (7, ''Hello'')), Returned None, Returned None, Returned None]"
  by code_simp


subsection \<open>Claims about the job table\<close>

text \<open>
  C1, at six claimants. On a table with exactly one pending row, six workers attempt a
  claim at the same time. One worker returns the job and three return \<open>None\<close>; the two
  that are still waiting for the write lock after the busy timeout leave
  \<^verbatim>\<open>claim_pending_entry\<close> with \<^verbatim>\<open>OperationalError\<close>, because each worker whose UPDATE changed
  no row returned without commit and kept the lock while it slept. So not every other
  attempt returns \<open>None\<close>. (That at most one worker ever returns the job holds in every
  schedule: \<open>claim_race_at_most_one\<close>.)
\<close>

theorem six_claimants_two_raise:
  "filter (\<lambda>r. status r = Pending) example_store = [example_job] \<and>
   snd (run_claims six_claimants ((example_store, None), replicate 6 Start)) =
     [Returned (Some (7, ''Hello'')), Returned None, Returned None, Returned None,
      Raised (Exc OtherError ''database is locked''),
      Raised (Exc OtherError ''database is locked'')]"
  using six_claimants_run
  by (simp add: example_store_def example_job_def finished_job_def)



text \<open>
  C2, as the code has it. No sequence of claims, \<open>mark_success\<close> and \<open>mark_error\<close> calls
  moves a row back on the path pending, processing, finished (so never from success or
  error to processing or pending), and none changes the number of rows or an id. The two
  mark statements have no condition on the status: each sets the status of the rows with
  the given id whatever it was before.
\<close>

theorem status_never_moves_back:
  "length (apply_store_ops ops s) = length s \<and>
   (\<forall>i<length s.
      entry_id (apply_store_ops ops s ! i) = entry_id (s ! i) \<and>
      status_rank (status (s ! i)) \<le> status_rank (status (apply_store_ops ops s ! i)) \<and>
      (entry_id (s ! i) = eid \<longrightarrow>
         status (mark_success s eid path dur now ! i) = Success \<and>
         status (mark_error s eid msg now ! i) = Error))"
  using store_ops_rank [of ops s] by (simp add: mark_success_def mark_error_def)

theorem status_never_moves_back_witness:
  "status (example_store ! 1) = Pending \<and>
   status (apply_store_ops [Claim 9, MarkSuccess 7 ''audio/7.wav'' 1500 12] example_store ! 1)
     = Success \<and>
   status_rank (status (example_store ! 1))
     \<le> status_rank (status (apply_store_ops
           [Claim 9, MarkSuccess 7 ''audio/7.wav'' 1500 12] example_store ! 1)) \<and>
   status (mark_error example_store 7 ''late'' 20 ! 1) = Error"
  using status_never_moves_back
    [of "[Claim 9, MarkSuccess 7 ''audio/7.wav'' 1500 12]" example_store 7
        "''audio/7.wav''" 1500 12 "''late''"]
  by (simp add: example_store_def example_job_def finished_job_def claim_pending_entry_def
        select_oldest_pending_def update_claim_def claim_matches_def mark_success_def
        mark_error_def)

text \<open>
  C2 as stated fails: \<open>mark_success\<close> on a row whose status is \<open>error\<close> takes effect and
  overwrites the terminal status with \<open>success\<close>.
\<close>

theorem terminal_status_overwritten:
  "status (example_store ! 0) = Error \<and>
   status (mark_success example_store 3 ''audio/3.wav'' 1500 20 ! 0) = Success"
  by (simp add: example_store_def finished_job_def mark_success_def)

text \<open>
  C5. Whatever the message, \<open>mark_error\<close> stores its first 500 characters in the rows
  with the given id: the stored message is never longer than 500, a message within the
  cap is stored whole, and the row is marked \<open>error\<close> (a long message is cut, not refused).
\<close>

theorem mark_error_truncates:
  assumes "i < length s" and "entry_id (s ! i) = eid"
  shows "error_message (mark_error s eid msg now ! i) = Some (take 500 msg) \<and>
         length (take 500 msg) \<le> 500 \<and>
         (length msg \<le> 500 \<longrightarrow> take 500 msg = msg) \<and>
         status (mark_error s eid msg now ! i) = Error"
  using assms by (simp add: mark_error_def)

theorem mark_error_truncates_witness:
  "(1::nat) < length example_store \<and> entry_id (example_store ! 1) = 7 \<and>
   error_message (mark_error example_store 7 (replicate 5000 (CHR ''x'')) 20 ! 1)
     = Some (replicate 500 (CHR ''x'')) \<and>
   length (replicate 500 (CHR ''x'')) \<le> 500"
  using mark_error_truncates [of 1 example_store 7 "replicate 5000 (CHR ''x'')" 20]
  by (simp add: example_store_def example_job_def)

section \<open>Properties of the worker loop\<close>

subsection \<open>Helper facts\<close>

lemma is_Exception_not_KI: "is_Exception e \<Longrightarrow> \<not> is_KeyboardInterrupt e"
  by (cases e) simp

lemma process_entry_failure:
  "only_failures env \<Longrightarrow> process_entry env entry = (ev, Inl e) \<Longrightarrow> is_Exception e"
  by (auto simp: process_entry_def only_failures_def failure_def failure_result_def
        split: prod.splits sum.splits option.splits)

lemma claimed_block_failure:
  "only_failures env \<Longrightarrow> claimed_block env s entry = (s', ev, Some e) \<Longrightarrow> is_Exception e"
  by (auto simp: claimed_block_def only_failures_def failure_def failure_result_def Let_def
        process_entry_def
        split: prod.splits sum.splits option.splits if_splits)

lemma try_block_failure:
  "only_failures env \<Longrightarrow> try_block env s = (s', ev, Some e) \<Longrightarrow> is_Exception e"
  apply (auto simp: try_block_def  split: prod.splits option.splits if_splits dest: claimed_block_failure)
  apply (auto simp: only_failures_def failure_def)
  done

lemma iteration_continues:
  assumes "only_failures env"
  shows "snd (snd (iteration env s)) = Next_iteration"
proof (cases "try_block env s")
  case (fields s' ev r)
  show ?thesis
  proof (cases r)
    case None
    then show ?thesis using fields by (simp add: iteration_def)
  next
    case (Some e)
    then have "is_Exception e" using try_block_failure [OF assms] fields by simp
    then show ?thesis
      using fields Some assms is_Exception_not_KI [of e]
      by (simp add: iteration_def only_failures_def)
  qed
qed

lemma main_loop_runs:
  "\<forall>env\<in>set envs. only_failures env \<Longrightarrow> snd (snd (main_loop envs s)) = Running"
proof (induction envs arbitrary: s)
  case Nil
  then show ?case by simp
next
  case (Cons env envs)
  obtain s' ev c where it: "iteration env s = (s', ev, c)"
    by (cases "iteration env s") auto
  have "c = Next_iteration"
    using iteration_continues [of env s] Cons.prems it by simp
  then show ?case
    using it Cons.IH [of s'] Cons.prems by (auto split: prod.splits)
qed

lemma iteration_backs_off:
  assumes "only_failures env" and "try_block env s = (s', ev, Some e)"
  shows "iteration env s = (s', ev @ [Logged_error (exc_str e), Slept], Next_iteration)"
proof -
  have "is_Exception e" using try_block_failure [OF assms] .
  then show ?thesis
    using assms is_Exception_not_KI [of e] by (simp add: iteration_def only_failures_def)
qed

lemma iteration_marks_error:
  assumes "only_failures env"
    and "connect_fault env = None" and "claim_fault env = None"
    and "claim_pending_entry s (claim_now env) = (s1, Some (eid, tx))"
    and "snd (process_entry env (eid, tx)) = Inl e"
    and "mark_error_fault env = None" and "close_fault env = None"
  shows "iteration env s =
           (mark_error s1 eid (exc_str e) (mark_now env),
            [Tts_called tx, Logged_error (exc_str e)], Next_iteration)"
proof -
  have pe: "process_entry env (eid, tx) = ([Tts_called tx], Inl e)"
    using assms(5) by (simp add: process_entry_def)
  then have "is_Exception e"
    using process_entry_failure [OF assms(1)] by simp
  then have "claimed_block env s1 (eid, tx) =
      (mark_error s1 eid (exc_str e) (mark_now env),
       [Tts_called tx, Logged_error (exc_str e)], None)"
    using pe assms(6) by (simp add: claimed_block_def)
  then have "try_block env s =
      (mark_error s1 eid (exc_str e) (mark_now env),
       [Tts_called tx, Logged_error (exc_str e)], None)"
    using assms(2,3,4,7) by (simp add: try_block_def)
  then show ?thesis by (simp add: iteration_def)
qed

lemma example_envs_only_failures:
  "only_failures tts_fails_env" "only_failures db_down_env" "only_failures quiet_env"
  by (simp_all add: only_failures_def failure_def failure_result_def tts_fails_env_def
        db_down_env_def quiet_env_def)

subsection \<open>Claims\<close>

text \<open>
  C6. Whatever fails in the first iterations of the loop, as long as it is a failure (an
  \<^verbatim>\<open>Exception\<close>) and not an interrupt, the loop is still running after them. In each such
  iteration: a failure of the synthesis of a claimed entry ends in \<open>mark_error\<close> for that
  entry, with the text of the exception, and the loop goes to the next iteration; a
  failure that leaves the body of the outer \<^verbatim>\<open>try\<close> is logged, the loop sleeps the poll
  interval and goes to the next iteration, which starts again from the connection.
\<close>

theorem worker_loop_survives_failures:
  assumes "\<forall>env\<in>set envs. only_failures env"
  shows "snd (snd (main_loop envs s)) = Running \<and>
    (\<forall>env\<in>set envs. \<forall>s0.
       snd (snd (iteration env s0)) = Next_iteration \<and>
       (\<forall>s1 eid tx e.
          connect_fault env = None \<and> claim_fault env = None \<and>
          claim_pending_entry s0 (claim_now env) = (s1, Some (eid, tx)) \<and>
          snd (process_entry env (eid, tx)) = Inl e \<and>
          mark_error_fault env = None \<and> close_fault env = None
          \<longrightarrow> iteration env s0 =
                (mark_error s1 eid (exc_str e) (mark_now env),
                 [Tts_called tx, Logged_error (exc_str e)], Next_iteration)) \<and>
       (\<forall>s' ev e.
          try_block env s0 = (s', ev, Some e)
          \<longrightarrow> iteration env s0 =
                (s', ev @ [Logged_error (exc_str e), Slept], Next_iteration)))"
proof (intro conjI ballI allI)
  show "snd (snd (main_loop envs s)) = Running"
    using main_loop_runs [OF assms] .
next
  fix env s0 assume "env \<in> set envs"
  then show "snd (snd (iteration env s0)) = Next_iteration"
    using assms iteration_continues by blast
next
  fix env s0 s1 eid tx e assume "env \<in> set envs"
  then have "only_failures env" using assms by blast
  then show "connect_fault env = None \<and> claim_fault env = None \<and>
          claim_pending_entry s0 (claim_now env) = (s1, Some (eid, tx)) \<and>
          snd (process_entry env (eid, tx)) = Inl e \<and>
          mark_error_fault env = None \<and> close_fault env = None
          \<longrightarrow> iteration env s0 =
                (mark_error s1 eid (exc_str e) (mark_now env),
                 [Tts_called tx, Logged_error (exc_str e)], Next_iteration)"
    using iteration_marks_error [of env s0 s1 eid tx e] by blast
next
  fix env s0 s' ev e assume "env \<in> set envs"
  then have "only_failures env" using assms by blast
  then show "try_block env s0 = (s', ev, Some e)
          \<longrightarrow> iteration env s0 =
                (s', ev @ [Logged_error (exc_str e), Slept], Next_iteration)"
    using iteration_backs_off [of env s0 s' ev e] by blast
qed

theorem worker_loop_survives_failures_witness:
  "only_failures tts_fails_env \<and> only_failures db_down_env \<and> only_failures quiet_env \<and>
   main_loop [tts_fails_env, db_down_env, quiet_env] example_store =
     ([finished_job,
       example_job\<lparr>status := Error, started_at := Some 10, completed_at := Some 12,
                    error_message := Some ''model crashed''\<rparr>],
      [Tts_called ''Hello'', Logged_error ''model crashed'',
       Logged_error ''database is locked'', Slept, Slept],
      Running)"
proof -
  have h: "\<forall>env\<in>set [tts_fails_env, db_down_env, quiet_env]. only_failures env"
    using example_envs_only_failures by simp
  have run: "main_loop [tts_fails_env, db_down_env, quiet_env] example_store =
     ([finished_job,
       example_job\<lparr>status := Error, started_at := Some 10, completed_at := Some 12,
                    error_message := Some ''model crashed''\<rparr>],
      [Tts_called ''Hello'', Logged_error ''model crashed'',
       Logged_error ''database is locked'', Slept, Slept],
      Running)"
    by (simp add: iteration_def try_block_def claimed_block_def process_entry_def
          tts_fails_env_def db_down_env_def quiet_env_def example_store_def example_job_def
          finished_job_def claim_pending_entry_def select_oldest_pending_def
          update_claim_def claim_matches_def mark_error_def)
  show ?thesis
    using worker_loop_survives_failures [OF h, of example_store] example_envs_only_failures run
    by simp
qed

section \<open>Properties of the session coordinator and the responder\<close>

subsection \<open>Helper facts\<close>

lemmas io_defs = io_return_def io_raise_def io_lift_def io_emit_def io_bind_def io_catch_def

lemma guarded_after_any:
  "(case ext of [] \<Rightarrow> True | ev # evs \<Rightarrow> \<not> is_send ev) \<Longrightarrow>
     guarded_after b ext = guarded_after False ext"
  by (cases ext) simp_all

lemma guarded_after_append:
  "guarded_after b (tr @ ext) =
     (guarded_after b tr \<and>
      guarded_after (if tr = [] then b else last tr = Closed_checked False) ext)"
  by (induction tr arbitrary: b) auto

lemma guarded_append:
  "guarded tr \<Longrightarrow> well_guarded ext \<Longrightarrow> guarded (tr @ ext)"
  using guarded_after_any [of ext]
  by (simp add: guarded_def well_guarded_def guarded_after_append)

lemma well_guarded_append:
  "well_guarded a \<Longrightarrow> well_guarded b \<Longrightarrow> well_guarded (a @ b)"
  using guarded_append [of a b]
  by (cases a) (auto simp: well_guarded_def)

lemma well_guarded_Nil: "well_guarded []"
  by (simp add: well_guarded_def guarded_def)

lemma extends_return: "extends_guarded (io_return x)"
  using well_guarded_Nil by (auto simp: extends_guarded_def io_defs)

lemma extends_raise: "extends_guarded (io_raise e)"
  using well_guarded_Nil by (auto simp: extends_guarded_def io_defs)

lemma extends_lift: "extends_guarded (io_lift r)"
  using well_guarded_Nil by (auto simp: extends_guarded_def io_defs)

lemma extends_emit: "\<not> is_send ev \<Longrightarrow> extends_guarded (io_emit ev)"
  by (auto simp: extends_guarded_def io_defs well_guarded_def guarded_def)

lemma extends_safe_send: "extends_guarded (safe_send env f)"
  by (auto simp: extends_guarded_def safe_send_def well_guarded_def guarded_def
        split: send_outcome.splits)

lemma extends_bind:
  assumes "extends_guarded m" and "\<And>x. extends_guarded (f x)"
  shows "extends_guarded (io_bind m f)"
  unfolding extends_guarded_def
proof
  fix tr
  obtain tr1 r where m: "m tr = (tr1, r)" by (cases "m tr")
  obtain e1 where e1: "tr1 = tr @ e1" "well_guarded e1"
    using assms(1) m unfolding extends_guarded_def by (metis fst_conv)
  show "\<exists>ext. fst (io_bind m f tr) = tr @ ext \<and> well_guarded ext"
  proof (cases r)
    case (Inl e)
    then show ?thesis using m e1 by (auto simp: io_bind_def)
  next
    case (Inr x)
    obtain e2 where e2: "fst (f x tr1) = tr1 @ e2" "well_guarded e2"
      using assms(2) [of x] unfolding extends_guarded_def by blast
    have "fst (io_bind m f tr) = tr @ (e1 @ e2)"
      using m Inr e1 e2 by (simp add: io_bind_def)
    then show ?thesis using well_guarded_append [OF e1(2) e2(2)] by blast
  qed
qed

lemma extends_catch:
  assumes "extends_guarded m" and "\<And>e. extends_guarded (h e)"
  shows "extends_guarded (io_catch m h)"
  unfolding extends_guarded_def
proof
  fix tr
  obtain tr1 r where m: "m tr = (tr1, r)" by (cases "m tr")
  obtain e1 where e1: "tr1 = tr @ e1" "well_guarded e1"
    using assms(1) m unfolding extends_guarded_def by (metis fst_conv)
  show "\<exists>ext. fst (io_catch m h tr) = tr @ ext \<and> well_guarded ext"
  proof (cases r)
    case (Inr x)
    then show ?thesis using m e1 by (auto simp: io_catch_def)
  next
    case (Inl e)
    obtain e2 where e2: "fst (h e tr1) = tr1 @ e2" "well_guarded e2"
      using assms(2) [of e] unfolding extends_guarded_def by blast
    have "fst (io_catch m h tr) = tr @ (e1 @ e2)"
      using m Inl e1 e2 by (simp add: io_catch_def)
    then show ?thesis using well_guarded_append [OF e1(2) e2(2)] by blast
  qed
qed

lemma extends_if:
  "extends_guarded a \<Longrightarrow> extends_guarded b \<Longrightarrow> extends_guarded (if c then a else b)"
  by simp

lemmas extends_rules = extends_bind extends_catch extends_if extends_safe_send extends_return
  extends_raise extends_lift extends_emit

lemma extends_phase_complete: "extends_guarded (phase_complete env tx sid)"
  unfolding phase_complete_def by (intro extends_rules) simp

lemma extends_phase_generating: "extends_guarded (phase_generating env tx sid)"
  unfolding phase_generating_def by (intro extends_rules extends_phase_complete)

lemma extends_phase_thinking: "extends_guarded (phase_thinking env prompt sid)"
  unfolding phase_thinking_def by (intro extends_rules extends_phase_generating) simp

lemma extends_request_body: "extends_guarded (request_body env msg_data)"
  unfolding request_body_def by (intro extends_rules extends_phase_thinking)

lemma extends_handle_text: "extends_guarded (handle_text env msg_data)"
  unfolding handle_text_def by (intro extends_rules extends_request_body)

lemma handle_text_guarded: "guarded (fst (handle_text env msg_data []))"
proof -
  obtain ext where "fst (handle_text env msg_data []) = [] @ ext" "well_guarded ext"
    using extends_handle_text [of env msg_data] unfolding extends_guarded_def by blast
  then show ?thesis by (simp add: well_guarded_def)
qed

lemma not_Exception_class:
  "\<not> is_Exception e \<Longrightarrow> exc_class_of e \<noteq> JSONDecodeError"
  by (cases e) auto

lemma send_then_return_caught:
  "io_catch (io_bind (safe_send env f) (\<lambda>_. io_return ())) (\<lambda>e.
       if exc_class_of e = JSONDecodeError
       then io_bind (safe_send env (Error_frame ''Invalid JSON'')) (\<lambda>_. io_return ())
       else if is_Exception e
       then io_bind (safe_send env (Error_frame (exc_str e))) (\<lambda>_. io_return ())
       else io_raise e) tr
   = io_bind (safe_send env f) (\<lambda>_. io_return ()) tr"
  by (auto simp: io_defs safe_send_def not_Exception_class split: send_outcome.splits)

lemma request_body_falsy_prompt:
  assumes "json_loads env msg_data = Some (JObj kv)" and "\<not> truthy (prompt_of kv)"
  shows "request_body env msg_data =
           io_bind (safe_send env (Error_frame ''No prompt provided'')) (\<lambda>_. io_return ())"
  using assms by (auto simp: request_body_def io_defs prompt_of_def fun_eq_iff)

lemma handle_text_falsy_prompt:
  assumes "json_loads env msg_data = Some (JObj kv)" and "\<not> truthy (prompt_of kv)"
  shows "handle_text env msg_data [] =
           io_bind (safe_send env (Error_frame ''No prompt provided'')) (\<lambda>_. io_return ()) []"
  unfolding handle_text_def request_body_falsy_prompt [OF assms]
  by (rule send_then_return_caught)

lemma request_body_valid_prompt:
  assumes "json_loads env msg_data = Some (JObj kv)"
    and "prompt_of kv = JStr p" and "p \<noteq> []"
  shows "request_body env msg_data = phase_thinking env (JStr p) (session_of kv)"
  using assms
  by (auto simp: request_body_def io_defs prompt_of_def session_of_def fun_eq_iff
        split: option.splits)

lemma phase_thinking_sent:
  assumes "ws_send env 0 = Send_ok"
  shows "phase_thinking env prompt sid [] =
     (case get_ai_response_with_session env prompt sid of
        Inl e \<Rightarrow>
          ([Closed_checked False, Sent (thinking_frame env), Responder_invoked prompt sid], Inl e)
      | Inr reply \<Rightarrow>
          phase_generating env (fst reply) (snd reply)
            [Closed_checked False, Sent (thinking_frame env), Responder_invoked prompt sid])"
  using assms
  by (simp add: phase_thinking_def io_defs safe_send_def thinking_frame_def split: sum.splits)

lemma phase_generating_empty:
  "phase_generating env (JStr []) sid tr =
     io_bind (safe_send env (Error_frame ''Failed to get AI response'')) (\<lambda>_. io_return ()) tr"
  by (simp add: phase_generating_def io_defs split: prod.splits sum.splits)

lemma safe_send_all_ok:
  "\<forall>k. ws_send env k = Send_ok \<Longrightarrow>
     safe_send env f tr = (tr @ [Closed_checked False, Sent f], Inr True)"
  by (simp add: safe_send_def)

lemma sent_frames_append: "sent_frames (a @ b) = sent_frames a @ sent_frames b"
  by (induction a rule: sent_frames.induct) simp_all

lemma phase_complete_all_ok:
  assumes "\<forall>k. ws_send env k = Send_ok"
  shows "phase_complete env tx sid tr =
     (case generate_tts env tx of
        Inl e \<Rightarrow> (tr @ [Synthesizer_invoked tx], Inl e)
      | Inr audio \<Rightarrow>
          (case write_fault env of
             Some e \<Rightarrow> (tr @ [Synthesizer_invoked tx], Inl e)
           | None \<Rightarrow>
               (case audio_duration env of
                  Inl e \<Rightarrow> (tr @ [Synthesizer_invoked tx], Inl e)
                | Inr d \<Rightarrow>
                    (tr @ [Synthesizer_invoked tx, Closed_checked False,
                           Sent (response_frame env tx sid d)], Inr ()))))"
  by (simp add: phase_complete_def io_defs safe_send_all_ok [OF assms] response_frame_def
        split: sum.splits option.splits)

lemma phase_generating_all_ok:
  assumes "\<forall>k. ws_send env k = Send_ok"
  shows "phase_generating env tx sid tr =
     (case log_preview tx of
        Inl e \<Rightarrow> (tr, Inl e)
      | Inr u \<Rightarrow>
          if \<not> truthy tx
          then (tr @ [Closed_checked False, Sent (Error_frame ''Failed to get AI response'')],
                Inr ())
          else phase_complete env tx sid
                 (tr @ [Closed_checked False, Sent (generating_frame env)]))"
  by (simp add: phase_generating_def io_defs safe_send_all_ok [OF assms] generating_frame_def
        split: sum.splits)

lemma handler_all_ok:
  assumes "\<forall>k. ws_send env k = Send_ok"
  shows "io_catch m (\<lambda>e.
       if exc_class_of e = JSONDecodeError
       then io_bind (safe_send env (Error_frame ''Invalid JSON'')) (\<lambda>_. io_return ())
       else if is_Exception e
       then io_bind (safe_send env (Error_frame (exc_str e))) (\<lambda>_. io_return ())
       else io_raise e) tr =
     (case m tr of
        (tr', Inr x) \<Rightarrow> (tr', Inr x)
      | (tr', Inl e) \<Rightarrow>
          if is_Exception e
          then (tr' @ [Closed_checked False,
                       Sent (Error_frame (if exc_class_of e = JSONDecodeError
                                          then ''Invalid JSON'' else exc_str e))], Inr ())
          else (tr', Inl e))"
  by (auto simp: io_defs safe_send_all_ok [OF assms] not_Exception_class
        split: prod.splits sum.splits)

lemmas example_defs = example_env_def example_loads_def prompt_msg_def empty_prompt_msg_def
  reply_stdout_def empty_reply_stdout_def dq_def empty_reply_env_def blank_output_env_def
  array_output_env_def closed_env_def

lemmas eval_defs = handle_text_def request_body_def phase_thinking_def phase_generating_def
  phase_complete_def safe_send_def get_ai_response_with_session_def parse_reply_def
  audio_duration_def responder_cmd_def random_choice_def thinking_messages_def
  generating_messages_def io_defs strip_def is_space_def

lemma safe_send_all_closed:
  "\<forall>k. ws_send env k = Conn_closed \<Longrightarrow>
     safe_send env f tr = (tr @ [Closed_checked True], Inr False)"
  by (simp add: safe_send_def)

lemma dict_get_raises: "dict_get d k dflt = Inl e \<Longrightarrow> is_Exception e"
  by (cases d) auto

lemma log_preview_raises: "log_preview v = Inl e \<Longrightarrow> is_Exception e"
  by (cases v) auto

lemma handle_text_all_closed:
  assumes "\<forall>k. ws_send env k = Conn_closed"
  shows "snd (handle_text env msg_data []) = Inr () \<and>
         sent_frames (fst (handle_text env msg_data [])) = [] \<and>
         collaborator_calls (fst (handle_text env msg_data [])) = []"
  by (auto simp: handle_text_def request_body_def phase_thinking_def io_defs
        safe_send_all_closed [OF assms]
        split: option.splits sum.splits prod.splits if_splits
        dest: dict_get_raises log_preview_raises)

lemma handle_text_no_Exception:
  "snd (handle_text env msg_data []) = Inl e \<Longrightarrow> \<not> is_Exception e"
  by (auto simp: handle_text_def io_defs safe_send_def
        split: prod.splits sum.splits send_outcome.splits if_splits)


subsection \<open>Claims\<close>

text \<open>
  C7. An inbound message that is a JSON object whose prompt is missing or empty (or any
  other value Python counts as false): no collaborator is called, and the only frame that
  can be sent is the error frame \<^verbatim>\<open>No prompt provided\<close>. On an open connection exactly that
  frame is sent, the handler returns normally, and the loop goes on to handle the messages
  that follow on the same connection.
\<close>

theorem missing_prompt_only_error_frame:
  assumes "json_loads env msg_data = Some (JObj kv)" and "\<not> truthy (prompt_of kv)"
  shows "collaborator_calls (fst (handle_text env msg_data [])) = [] \<and>
         sent_frames (fst (handle_text env msg_data [])) =
           (if ws_send env 0 = Send_ok then [Error_frame ''No prompt provided''] else []) \<and>
         (ws_send env 0 = Send_ok \<longrightarrow>
            handle_text env msg_data [] =
              ([Closed_checked False, Sent (Error_frame ''No prompt provided'')], Inr ()) \<and>
            websocket_handler ((env, Text msg_data) # rest) =
              ([Closed_checked False, Sent (Error_frame ''No prompt provided'')]
                 @ fst (websocket_handler rest),
               snd (websocket_handler rest)))"
  unfolding websocket_handler.simps handle_text_falsy_prompt [OF assms]
  by (auto simp: io_defs safe_send_def split: send_outcome.splits prod.splits)

theorem missing_prompt_only_error_frame_witness:
  "json_loads example_env empty_prompt_msg = Some (JObj [(''prompt'', JStr [])]) \<and>
   \<not> truthy (prompt_of [(''prompt'', JStr [])]) \<and>
   ws_send example_env 0 = Send_ok \<and>
   websocket_handler [(example_env, Text empty_prompt_msg), (example_env, Text prompt_msg)] =
     ([Closed_checked False, Sent (Error_frame ''No prompt provided'')]
        @ fst (websocket_handler [(example_env, Text prompt_msg)]), None) \<and>
   map frame_phase (sent_frames (fst (websocket_handler [(example_env, Text prompt_msg)])))
     = [''thinking'', ''generating'', ''response'']"
proof -
  have h1: "json_loads example_env empty_prompt_msg = Some (JObj [(''prompt'', JStr [])])"
    by (simp add: example_defs)
  have h2: "\<not> truthy (prompt_of [(''prompt'', JStr [])])"
    by (simp add: prompt_of_def)
  have h3: "ws_send example_env 0 = Send_ok"
    by (simp add: example_defs)
  have good: "handle_text example_env prompt_msg [] =
      ([Closed_checked False, Sent (Status_frame ''thinking'' ''Consulting the mainframe...''),
        Responder_invoked (JStr ''hi'') JNull,
        Closed_checked False, Sent (Status_frame ''generating'' ''Preparing test results...''),
        Synthesizer_invoked (JStr ''Oh. It is you.''),
        Closed_checked False,
        Sent (Response_frame (JStr ''Oh. It is you.'') (JStr ''s1'')
                ''/audio/output_01234567.wav'' 2)], Inr ())"
    by (simp add: eval_defs example_defs)
  show ?thesis
    using missing_prompt_only_error_frame [OF h1 h2, of "[(example_env, Text prompt_msg)]"]
      h1 h2 h3 good
    by simp
qed

text \<open>
  C10. A request with a non-empty prompt whose thinking frame was sent and to which the
  responder returns the empty text: the only collaborator call is the one of the
  responder (the synthesizer is not called), and the frames sent are the thinking frame
  and then, when the connection is still open, the error frame
  \<^verbatim>\<open>Failed to get AI response\<close>; no generating frame.
\<close>

theorem empty_reply_skips_generating:
  assumes "json_loads env msg_data = Some (JObj kv)"
    and "prompt_of kv = JStr p" and "p \<noteq> []"
    and "ws_send env 0 = Send_ok"
    and "get_ai_response_with_session env (JStr p) (session_of kv) = Inr (JStr [], new_sid)"
  shows "collaborator_calls (fst (handle_text env msg_data []))
           = [Responder_invoked (JStr p) (session_of kv)] \<and>
         sent_frames (fst (handle_text env msg_data [])) =
           thinking_frame env #
             (if ws_send env 1 = Send_ok then [Error_frame ''Failed to get AI response'']
              else [])"
proof -
  let ?tr = "[Closed_checked False, Sent (thinking_frame env),
              Responder_invoked (JStr p) (session_of kv)]"
  have "request_body env msg_data [] =
          io_bind (safe_send env (Error_frame ''Failed to get AI response''))
            (\<lambda>_. io_return ()) ?tr"
    using assms(4,5)
    by (simp add: request_body_valid_prompt [OF assms(1,2,3)] phase_thinking_sent
          phase_generating_empty)
  then show ?thesis
    by (auto simp: handle_text_def io_defs safe_send_def not_Exception_class
          split: send_outcome.splits)
qed

theorem empty_reply_skips_generating_witness:
  "json_loads empty_reply_env prompt_msg = Some (JObj [(''prompt'', JStr ''hi'')]) \<and>
   prompt_of [(''prompt'', JStr ''hi'')] = JStr ''hi'' \<and>
   ws_send empty_reply_env 0 = Send_ok \<and>
   get_ai_response_with_session empty_reply_env (JStr ''hi'')
       (session_of [(''prompt'', JStr ''hi'')]) = Inr (JStr [], JStr ''s1'') \<and>
   collaborator_calls (fst (handle_text empty_reply_env prompt_msg []))
     = [Responder_invoked (JStr ''hi'') JNull] \<and>
   sent_frames (fst (handle_text empty_reply_env prompt_msg [])) =
     [Status_frame ''thinking'' ''Consulting the mainframe...'',
      Error_frame ''Failed to get AI response'']"
proof -
  have h1: "json_loads empty_reply_env prompt_msg = Some (JObj [(''prompt'', JStr ''hi'')])"
    by (simp add: example_defs)
  have h2: "prompt_of [(''prompt'', JStr ''hi'')] = JStr ''hi''"
    by (simp add: prompt_of_def)
  have h3: "''hi'' \<noteq> []" by simp
  have h4: "ws_send empty_reply_env 0 = Send_ok"
    by (simp add: example_defs)
  have h5: "get_ai_response_with_session empty_reply_env (JStr ''hi'')
       (session_of [(''prompt'', JStr ''hi'')]) = Inr (JStr [], JStr ''s1'')"
    by (simp add: get_ai_response_with_session_def parse_reply_def example_defs)
  have h6: "ws_send empty_reply_env 1 = Send_ok"
    by (simp add: example_defs)
  show ?thesis
    using empty_reply_skips_generating [OF h1 h2 h3 h4 h5] h1 h2 h4 h5 h6
    by (simp add: thinking_frame_def random_choice_def thinking_messages_def session_of_def
          example_defs)
qed

text \<open>
  C4, as the code has it. A request with a non-empty prompt, on a connection on which every
  send succeeds, that the handler completes: the phases of the frames sent are thinking,
  generating, response, or thinking, generating, error, or thinking, error. So the thinking
  frame comes first, the generating frame at most once and after it, and exactly one
  response or error frame comes last; and when the responder returns a non-empty text and
  the synthesis succeeds, the frames are exactly thinking, generating, response.
\<close>

theorem request_phase_order:
  assumes "json_loads env msg_data = Some (JObj kv)"
    and "prompt_of kv = JStr p" and "p \<noteq> []"
    and "\<forall>k. ws_send env k = Send_ok"
    and "snd (handle_text env msg_data []) = Inr ()"
  shows "map frame_phase (sent_frames (fst (handle_text env msg_data [])))
           \<in> {[''thinking'', ''generating'', ''response''],
               [''thinking'', ''generating'', ''error''],
               [''thinking'', ''error'']} \<and>
         (\<forall>tx sid audio d.
            get_ai_response_with_session env (JStr p) (session_of kv) = Inr (tx, sid) \<and>
            log_preview tx = Inr () \<and> truthy tx \<and> generate_tts env tx = Inr audio \<and>
            write_fault env = None \<and> audio_duration env = Inr d
            \<longrightarrow> sent_frames (fst (handle_text env msg_data [])) =
                  [thinking_frame env, generating_frame env, response_frame env tx sid d])"
proof -
  have ok0: "ws_send env 0 = Send_ok" using assms(4) by simp
  note body = request_body_valid_prompt [OF assms(1,2,3)]
  have ht: "handle_text env msg_data [] =
     (case phase_thinking env (JStr p) (session_of kv) [] of
        (tr', Inr x) \<Rightarrow> (tr', Inr x)
      | (tr', Inl e) \<Rightarrow>
          if is_Exception e
          then (tr' @ [Closed_checked False,
                       Sent (Error_frame (if exc_class_of e = JSONDecodeError
                                          then ''Invalid JSON'' else exc_str e))], Inr ())
          else (tr', Inl e))"
    unfolding handle_text_def body by (rule handler_all_ok [OF assms(4)])
  show ?thesis
    using assms(5) unfolding ht phase_thinking_sent [OF ok0]
      phase_generating_all_ok [OF assms(4)] phase_complete_all_ok [OF assms(4)]
    by (auto simp: thinking_frame_def generating_frame_def response_frame_def
          split: sum.splits option.splits prod.splits if_splits)
qed

theorem request_phase_order_witness:
  "json_loads example_env prompt_msg = Some (JObj [(''prompt'', JStr ''hi'')]) \<and>
   prompt_of [(''prompt'', JStr ''hi'')] = JStr ''hi'' \<and>
   ws_send example_env 3 = Send_ok \<and>
   snd (handle_text example_env prompt_msg []) = Inr () \<and>
   sent_frames (fst (handle_text example_env prompt_msg [])) =
     [Status_frame ''thinking'' ''Consulting the mainframe...'',
      Status_frame ''generating'' ''Preparing test results...'',
      Response_frame (JStr ''Oh. It is you.'') (JStr ''s1'') ''/audio/output_01234567.wav'' 2]"
proof -
  have h1: "json_loads example_env prompt_msg = Some (JObj [(''prompt'', JStr ''hi'')])"
    by (simp add: example_defs)
  have h2: "prompt_of [(''prompt'', JStr ''hi'')] = JStr ''hi''"
    by (simp add: prompt_of_def)
  have h3: "''hi'' \<noteq> []" by simp
  have h4: "\<forall>k. ws_send example_env k = Send_ok"
    by (simp add: example_defs)
  have run: "handle_text example_env prompt_msg [] =
      ([Closed_checked False, Sent (Status_frame ''thinking'' ''Consulting the mainframe...''),
        Responder_invoked (JStr ''hi'') JNull,
        Closed_checked False, Sent (Status_frame ''generating'' ''Preparing test results...''),
        Synthesizer_invoked (JStr ''Oh. It is you.''),
        Closed_checked False,
        Sent (Response_frame (JStr ''Oh. It is you.'') (JStr ''s1'')
                ''/audio/output_01234567.wav'' 2)], Inr ())"
    by (simp add: eval_defs example_defs)
  have h5: "snd (handle_text example_env prompt_msg []) = Inr ()"
    using run by simp
  show ?thesis
    using request_phase_order [OF h1 h2 h3 h4 h5] h1 h2 h4 run
    by simp
qed

text \<open>
  C4 as stated fails: the responder returns the empty text, the request completes, and
  the phases sent are thinking, error, with no generating phase.
\<close>

theorem generating_phase_skipped:
  "snd (handle_text empty_reply_env prompt_msg []) = Inr () \<and>
   map frame_phase (sent_frames (fst (handle_text empty_reply_env prompt_msg [])))
     = [''thinking'', ''error'']"
  by (simp add: eval_defs example_defs)

text \<open>
  C9. For every frame and every trace, \<open>safe_send\<close> on a closed connection sends nothing
  and returns \<open>False\<close>. In the handling of any message every call of \<^verbatim>\<open>ws.send_json\<close> comes
  directly after a read of \<^verbatim>\<open>ws.closed\<close> that gave false; no \<^verbatim>\<open>Exception\<close> leaves the
  handling of a message, whatever the connection does; and on a connection that is closed
  the handling returns normally, with no frame sent and no collaborator called.
\<close>

theorem closed_connection_send:
  "(ws_send env (length (filter is_closed_check tr)) = Conn_closed \<longrightarrow>
      safe_send env f tr = (tr @ [Closed_checked True], Inr False)) \<and>
   guarded (fst (handle_text env msg_data [])) \<and>
   (\<forall>e. snd (handle_text env msg_data []) = Inl e \<longrightarrow> \<not> is_Exception e) \<and>
   ((\<forall>k. ws_send env k = Conn_closed) \<longrightarrow>
      snd (handle_text env msg_data []) = Inr () \<and>
      sent_frames (fst (handle_text env msg_data [])) = [] \<and>
      collaborator_calls (fst (handle_text env msg_data [])) = [])"
  using handle_text_guarded [of env msg_data] handle_text_no_Exception [of env msg_data]
    handle_text_all_closed [of env msg_data]
  by (auto simp: safe_send_def)

theorem closed_connection_send_witness:
  "ws_send closed_env (length (filter is_closed_check [])) = Conn_closed \<and>
   safe_send closed_env (Error_frame ''No prompt provided'') []
     = ([Closed_checked True], Inr False) \<and>
   handle_text closed_env prompt_msg [] = ([Closed_checked True], Inr ()) \<and>
   guarded (fst (handle_text example_env prompt_msg []))"
  using closed_connection_send [of closed_env "[]" "Error_frame ''No prompt provided''" prompt_msg]
    closed_connection_send [of example_env "[]" "Error_frame ''No prompt provided''" prompt_msg]
  by (simp add: eval_defs example_defs)




text \<open>
  An output that is JSON but not an object, here the empty array: \<^verbatim>\<open>data['result']\<close>
  raises \<^verbatim>\<open>TypeError\<close>, which the \<^verbatim>\<open>except\<close> clause does not name, so the call raises.
\<close>

lemma array_output_raises:
  "get_ai_response_with_session array_output_env (JStr ''hi'') JNull =
     Inl (Exc TypeError ''indices must be integers'')"
  by (simp add: get_ai_response_with_session_def parse_reply_def example_defs)

end
